theory Spec2Isabelle
  imports Main "HOL-Library.AList"
begin

section \<open>Python string primitives\<close>

text \<open>
  A string is the list of its code points, and a character is a code point below 256
  (the Latin-1 range). On these code points the functions below are the ones of
  Python 3: \<^verbatim>\<open>str.isspace\<close>, which is also the whitespace of \<^verbatim>\<open>str.strip\<close> and the
  class \<^verbatim>\<open>\s\<close> of a regular expression over \<^verbatim>\<open>str\<close>, is true of the code points
  9 to 13, 28 to 32, 133 (next line) and 160 (no-break space); the class \<^verbatim>\<open>\d\<close> holds
  the decimal digits \<^verbatim>\<open>0-9\<close> only; and \<^verbatim>\<open>str.lower\<close> maps \<^verbatim>\<open>A-Z\<close> and the
  capital letters 192 to 222, the multiplication sign 215 apart, to the code point 32
  places higher and leaves every other code point alone.
\<close>

definition py_isspace :: "char \<Rightarrow> bool" where
  "py_isspace c = (c \<in> set [CHR 0x09, CHR 0x0A, CHR 0x0B, CHR 0x0C, CHR 0x0D,
                              CHR 0x1C, CHR 0x1D, CHR 0x1E, CHR 0x1F, CHR 0x20,
                              CHR 0x85, CHR 0xA0])"

definition py_isdigit :: "char \<Rightarrow> bool" where
  "py_isdigit c = (c \<in> set ''0123456789'')"

definition upper_chars :: string where
  "upper_chars = ''ABCDEFGHIJKLMNOPQRSTUVWXYZ''
     @ [CHR 0xC0, CHR 0xC1, CHR 0xC2, CHR 0xC3, CHR 0xC4, CHR 0xC5, CHR 0xC6, CHR 0xC7,
        CHR 0xC8, CHR 0xC9, CHR 0xCA, CHR 0xCB, CHR 0xCC, CHR 0xCD, CHR 0xCE, CHR 0xCF,
        CHR 0xD0, CHR 0xD1, CHR 0xD2, CHR 0xD3, CHR 0xD4, CHR 0xD5, CHR 0xD6,
        CHR 0xD8, CHR 0xD9, CHR 0xDA, CHR 0xDB, CHR 0xDC, CHR 0xDD, CHR 0xDE]"

definition lower_chars :: string where
  "lower_chars = ''abcdefghijklmnopqrstuvwxyz''
     @ [CHR 0xE0, CHR 0xE1, CHR 0xE2, CHR 0xE3, CHR 0xE4, CHR 0xE5, CHR 0xE6, CHR 0xE7,
        CHR 0xE8, CHR 0xE9, CHR 0xEA, CHR 0xEB, CHR 0xEC, CHR 0xED, CHR 0xEE, CHR 0xEF,
        CHR 0xF0, CHR 0xF1, CHR 0xF2, CHR 0xF3, CHR 0xF4, CHR 0xF5, CHR 0xF6,
        CHR 0xF8, CHR 0xF9, CHR 0xFA, CHR 0xFB, CHR 0xFC, CHR 0xFD, CHR 0xFE]"

definition lower_char :: "char \<Rightarrow> char" where
  "lower_char c = (case map_of (zip upper_chars lower_chars) c of None \<Rightarrow> c | Some d \<Rightarrow> d)"

definition lower :: "string \<Rightarrow> string" where
  "lower s = map lower_char s"

definition lstrip :: "string \<Rightarrow> string" where
  "lstrip s = dropWhile py_isspace s"

definition rstrip :: "string \<Rightarrow> string" where
  "rstrip s = rev (dropWhile py_isspace (rev s))"

definition strip :: "string \<Rightarrow> string" where
  "strip s = rstrip (lstrip s)"

text \<open>\<^verbatim>\<open>s.startswith(p)\<close>.\<close>

fun startswith :: "string \<Rightarrow> string \<Rightarrow> bool" where
  "startswith s [] = True"
| "startswith [] (p # ps) = False"
| "startswith (c # cs) (p # ps) = (c = p \<and> startswith cs ps)"

text \<open>\<^verbatim>\<open>sub in s\<close>: \<open>sub\<close> occurs in \<open>s\<close> as a contiguous substring.\<close>

fun contains :: "string \<Rightarrow> string \<Rightarrow> bool" where
  "contains [] sub = (sub = [])"
| "contains (c # cs) sub = (startswith (c # cs) sub \<or> contains cs sub)"

text \<open>\<^verbatim>\<open>sep.join(parts)\<close>.\<close>

fun join :: "string \<Rightarrow> string list \<Rightarrow> string" where
  "join sep [] = []"
| "join sep [p] = p"
| "join sep (p # q # ps) = p @ sep @ join sep (q # ps)"

text \<open>\<^verbatim>\<open>s.split(c)\<close> for a separator of one character.\<close>

fun split_on :: "char \<Rightarrow> string \<Rightarrow> string list" where
  "split_on c [] = [[]]"
| "split_on c (x # xs) =
     (if x = c then [] # split_on c xs
      else (case split_on c xs of [] \<Rightarrow> [[x]] | p # ps \<Rightarrow> (x # p) # ps))"

text \<open>
  \<^verbatim>\<open>s.replace(old, new)\<close>: the occurrences of \<open>old\<close> are replaced from left to right,
  without overlap; for an empty \<open>old\<close> Python puts \<open>new\<close> in front of the string and
  after every character.
\<close>

function replace :: "string \<Rightarrow> string \<Rightarrow> string \<Rightarrow> string" where
  "replace old new s =
     (if old = [] then new @ concat (map (\<lambda>c. c # new) s)
      else if s = [] then []
      else if startswith s old then new @ replace old new (drop (length old) s)
      else hd s # replace old new (tl s))"
  by pat_completeness auto
termination
  by (relation "measure (\<lambda>(old, new, s). length s)") (auto simp: neq_Nil_conv)

text \<open>\<^verbatim>\<open>str(n)\<close> for a natural number \<open>n\<close>.\<close>

fun str_nat :: "nat \<Rightarrow> string" where
  "str_nat n =
     (if n < 10 then [''0123456789'' ! n]
      else str_nat (n div 10) @ [''0123456789'' ! (n mod 10)])"

section \<open>The standard library: \<^verbatim>\<open>urllib.parse\<close>\<close>

text \<open>
  \<^verbatim>\<open>urlparse\<close> and \<^verbatim>\<open>urljoin\<close> belong to Python's standard library, not to the
  repository. They are modelled after CPython 3.11 (\<^verbatim>\<open>Lib/urllib/parse.py\<close>), function
  by function. The library's validation of a bracketed host (an IPv6 literal), which
  raises \<^verbatim>\<open>ValueError\<close> for an ill-formed one, is not modelled; its other check of the
  network location never raises for code points below 256.
\<close>

definition c0_control_or_space :: "char \<Rightarrow> bool" where
  "c0_control_or_space c = ((of_char c :: nat) \<le> 32)"

definition unsafe_url_byte :: "char \<Rightarrow> bool" where
  "unsafe_url_byte c = (c \<in> set [CHR 0x09, CHR 0x0D, CHR 0x0A])"

definition ascii_alpha :: "char \<Rightarrow> bool" where
  "ascii_alpha c = (c \<in> set ''abcdefghijklmnopqrstuvwxyzABCDEFGHIJKLMNOPQRSTUVWXYZ'')"

definition scheme_chars :: "string" where
  "scheme_chars = ''abcdefghijklmnopqrstuvwxyzABCDEFGHIJKLMNOPQRSTUVWXYZ0123456789+-.''"

definition uses_relative :: "string list" where
  "uses_relative = ['''', ''ftp'', ''http'', ''gopher'', ''nntp'', ''imap'', ''wais'', ''file'',
     ''https'', ''shttp'', ''mms'', ''prospero'', ''rtsp'', ''rtsps'', ''rtspu'', ''sftp'',
     ''svn'', ''svn+ssh'', ''ws'', ''wss'']"

definition uses_netloc :: "string list" where
  "uses_netloc = ['''', ''ftp'', ''http'', ''gopher'', ''nntp'', ''telnet'', ''imap'', ''wais'',
     ''file'', ''mms'', ''https'', ''shttp'', ''snews'', ''prospero'', ''rtsp'', ''rtsps'',
     ''rtspu'', ''rsync'', ''svn'', ''svn+ssh'', ''sftp'', ''nfs'', ''git'', ''git+ssh'',
     ''ws'', ''wss'']"

definition uses_params :: "string list" where
  "uses_params = ['''', ''ftp'', ''hdl'', ''prospero'', ''http'', ''imap'', ''https'', ''shttp'',
     ''rtsp'', ''rtsps'', ''rtspu'', ''sip'', ''sips'', ''mms'', ''sftp'', ''tel'']"

record parse_result =
  scheme :: string
  netloc :: string
  path :: string
  params :: string
  query :: string
  fragment :: string

text \<open>\<^verbatim>\<open>s.split(c, 1)\<close> for a \<open>c\<close> that occurs in \<open>s\<close>.\<close>

definition split_once :: "char \<Rightarrow> string \<Rightarrow> string \<times> string" where
  "split_once c s = (takeWhile (\<lambda>x. x \<noteq> c) s, drop 1 (dropWhile (\<lambda>x. x \<noteq> c) s))"

text \<open>\<^verbatim>\<open>_splitnetloc(url, 2)\<close>.\<close>

definition splitnetloc :: "string \<Rightarrow> string \<times> string" where
  "splitnetloc url =
     (let rest = drop 2 url;
          domain = takeWhile (\<lambda>c. c \<notin> set ''/?#'') rest
      in (domain, drop (length domain) rest))"

definition urlsplit :: "string \<Rightarrow> string \<Rightarrow> parse_result" where
  "urlsplit url0 scheme0 =
     (let url1 = filter (\<lambda>c. \<not> unsafe_url_byte c) (dropWhile c0_control_or_space url0);
          scheme1 = filter (\<lambda>c. \<not> unsafe_url_byte c)
                      (rev (dropWhile c0_control_or_space
                         (rev (dropWhile c0_control_or_space scheme0))));
          pre = takeWhile (\<lambda>c. c \<noteq> CHR '':'') url1;
          has_scheme = (CHR '':'' \<in> set url1 \<and> pre \<noteq> [] \<and> ascii_alpha (hd url1)
                          \<and> list_all (\<lambda>c. c \<in> set scheme_chars) pre);
          scheme2 = (if has_scheme then lower pre else scheme1);
          url2 = (if has_scheme then drop (length pre + 1) url1 else url1);
          has_netloc = (take 2 url2 = ''//'');
          netloc2 = (if has_netloc then fst (splitnetloc url2) else []);
          url3 = (if has_netloc then snd (splitnetloc url2) else url2);
          fragment2 = (if CHR ''#'' \<in> set url3 then snd (split_once CHR ''#'' url3) else []);
          url4 = (if CHR ''#'' \<in> set url3 then fst (split_once CHR ''#'' url3) else url3);
          query2 = (if CHR ''?'' \<in> set url4 then snd (split_once CHR ''?'' url4) else []);
          url5 = (if CHR ''?'' \<in> set url4 then fst (split_once CHR ''?'' url4) else url4)
      in \<lparr>scheme = scheme2, netloc = netloc2, path = url5, params = [],
          query = query2, fragment = fragment2\<rparr>)"

text \<open>\<^verbatim>\<open>_splitparams(url)\<close>, called for a \<open>url\<close> that contains a semicolon.\<close>

definition splitparams :: "string \<Rightarrow> string \<times> string" where
  "splitparams url =
     (if CHR ''/'' \<in> set url then
        (let seg = rev (takeWhile (\<lambda>c. c \<noteq> CHR ''/'') (rev url));
             dir = take (length url - length seg) url
         in if CHR '';'' \<in> set seg
            then (dir @ fst (split_once CHR '';'' seg), snd (split_once CHR '';'' seg))
            else (url, []))
      else split_once CHR '';'' url)"

definition urlparse :: "string \<Rightarrow> string \<Rightarrow> parse_result" where
  "urlparse url scheme0 =
     (let r = urlsplit url scheme0
      in if scheme r \<in> set uses_params \<and> CHR '';'' \<in> set (path r)
         then r\<lparr>path := fst (splitparams (path r)), params := snd (splitparams (path r))\<rparr>
         else r)"

definition urlunsplit :: "parse_result \<Rightarrow> string" where
  "urlunsplit r =
     (let url1 = (if netloc r \<noteq> [] \<or> (scheme r \<noteq> [] \<and> scheme r \<in> set uses_netloc)
                     \<or> take 2 (path r) = ''//''
                  then ''//'' @ netloc r
                       @ (if path r \<noteq> [] \<and> take 1 (path r) \<noteq> ''/'' then ''/'' @ path r
                          else path r)
                  else path r);
          url2 = (if scheme r \<noteq> [] then scheme r @ '':'' @ url1 else url1);
          url3 = (if query r \<noteq> [] then url2 @ ''?'' @ query r else url2)
      in if fragment r \<noteq> [] then url3 @ ''#'' @ fragment r else url3)"

definition urlunparse :: "parse_result \<Rightarrow> string" where
  "urlunparse r =
     (if params r \<noteq> [] then urlunsplit (r\<lparr>path := path r @ '';'' @ params r\<rparr>)
      else urlunsplit r)"

text \<open>The loop of \<^verbatim>\<open>urljoin\<close> over the path segments; a pop from the empty list is ignored.\<close>

fun resolve_segments :: "string list \<Rightarrow> string list \<Rightarrow> string list" where
  "resolve_segments [] resolved_path = resolved_path"
| "resolve_segments (seg # segs) resolved_path =
     (if seg = ''..'' then resolve_segments segs (butlast resolved_path)
      else if seg = ''.'' then resolve_segments segs resolved_path
      else resolve_segments segs (resolved_path @ [seg]))"

definition urljoin :: "string \<Rightarrow> string \<Rightarrow> string" where
  "urljoin base url =
     (if base = [] then url
      else if url = [] then base
      else
        (let b = urlparse base [];
             u = urlparse url (scheme b)
         in if scheme u \<noteq> scheme b \<or> scheme u \<notin> set uses_relative then url
            else if scheme u \<in> set uses_netloc \<and> netloc u \<noteq> [] then urlunparse u
            else
              (let netloc1 = (if scheme u \<in> set uses_netloc then netloc b else netloc u)
               in if path u = [] \<and> params u = [] then
                    urlunparse (u\<lparr>netloc := netloc1, path := path b, params := params b,
                                  query := (if query u = [] then query b else query u)\<rparr>)
                  else
                    (let base_parts0 = split_on CHR ''/'' (path b);
                         base_parts = (if last base_parts0 \<noteq> [] then butlast base_parts0
                                       else base_parts0);
                         segments0 = base_parts @ split_on CHR ''/'' (path u);
                         segments =
                           (if take 1 (path u) = ''/'' then split_on CHR ''/'' (path u)
                            else if length segments0 < 2 then segments0
                            else hd segments0
                                 # filter (\<lambda>s. s \<noteq> []) (butlast (tl segments0))
                                 @ [last segments0]);
                         resolved0 = resolve_segments segments [];
                         resolved_path = (if last segments \<in> set [''.'', ''..'']
                                          then resolved0 @ [[]] else resolved0);
                         joined = join ''/'' resolved_path
                     in urlunparse (u\<lparr>netloc := netloc1,
                                       path := (if joined = [] then ''/'' else joined)\<rparr>)))))"

section \<open>Company records\<close>

text \<open>
  A company is a Python dictionary. Its values are the ones the extractor produces and
  the ones a JSON document can give back: \<^verbatim>\<open>None\<close>, a string, an integer (the
  \<^verbatim>\<open>company_index\<close>) or a list of strings (\<^verbatim>\<open>socials\<close>). The dictionary is an
  association list in insertion order; \<open>obj_id\<close> is the identity \<^verbatim>\<open>id(company_data)\<close>
  of the dictionary object. The model has value semantics: it describes callers that
  build a new dictionary for every candidate, as \<^verbatim>\<open>extract_company_details\<close> does, and do
  not change a dictionary after they have submitted it. A dictionary object that is
  submitted a second time would be stored twice and carry one \<^verbatim>\<open>company_index\<close>; the
  statements that depend on this say that the submitted objects are distinct.
\<close>

datatype pyval = PNone | PStr string | PInt int | PList "string list"

datatype py_error = AttributeError | TypeError | ValueError | OSError

record company =
  obj_id :: nat
  items :: "(string \<times> pyval) list"

text \<open>Python's truth value of an object.\<close>

fun truthy :: "pyval \<Rightarrow> bool" where
  "truthy PNone = False"
| "truthy (PStr s) = (s \<noteq> [])"
| "truthy (PInt i) = (i \<noteq> 0)"
| "truthy (PList l) = (l \<noteq> [])"

text \<open>\<^verbatim>\<open>company_data.get(k)\<close> and \<^verbatim>\<open>company_data[k] = v\<close>.\<close>

definition dict_get :: "company \<Rightarrow> string \<Rightarrow> pyval" where
  "dict_get c k = (case map_of (items c) k of None \<Rightarrow> PNone | Some v \<Rightarrow> v)"

definition dict_set :: "company \<Rightarrow> string \<Rightarrow> pyval \<Rightarrow> company" where
  "dict_set c k v = c\<lparr>items := AList.update k v (items c)\<rparr>"

section \<open>The scraper session: \<^verbatim>\<open>UniversalCompanyScraper\<close>\<close>

subsection \<open>Output file names (\<^verbatim>\<open>__init__\<close>)\<close>

definition domain :: "string \<Rightarrow> string" where
  "domain base_url = replace ''.'' ''_'' (replace ''www.'' [] (netloc (urlparse base_url [])))"

definition csv_filename :: "string \<Rightarrow> string" where
  "csv_filename base_url = domain base_url @ ''_companies.csv''"

definition json_filename :: "string \<Rightarrow> string" where
  "json_filename base_url = domain base_url @ ''_companies.json''"

subsection \<open>Session state and the two files\<close>

text \<open>
  The document file is absent, unreadable as JSON, or a list of dictionaries. The
  columnar file is absent or a list of rows, the header first; a row is the list of the
  thirteen cell values before \<^verbatim>\<open>csv.writer\<close> formats them.
\<close>

datatype json_file = JMissing | JCorrupt | JDoc "(string \<times> pyval) list list"

record scraper =
  companies_data :: "company list"
  processed_companies :: "string set"
  json_file :: json_file
  csv_file :: "pyval list list option"

subsection \<open>\<^verbatim>\<open>_generate_company_key\<close>\<close>

text \<open>
  One identity field: \<^verbatim>\<open>x = company_data.get(k) or ""\<close> followed by
  \<^verbatim>\<open>x.strip().lower() if x else ""\<close>. A value that is true and not a string has no
  \<^verbatim>\<open>strip\<close>: the attribute access raises.
\<close>

fun key_field :: "pyval \<Rightarrow> py_error + string" where
  "key_field (PStr s) = (if s \<noteq> [] then Inr (lower (strip s)) else Inr [])"
| "key_field v = (if truthy v then Inl AttributeError else Inr [])"

definition generate_company_key :: "company \<Rightarrow> string" where
  "generate_company_key company_data =
     (case key_field (dict_get company_data ''name'') of
        Inl e \<Rightarrow> ''fallback:'' @ str_nat (obj_id company_data)
      | Inr name \<Rightarrow>
     (case key_field (dict_get company_data ''website_url'') of
        Inl e \<Rightarrow> ''fallback:'' @ str_nat (obj_id company_data)
      | Inr website \<Rightarrow>
     (case key_field (dict_get company_data ''source_url'') of
        Inl e \<Rightarrow> ''fallback:'' @ str_nat (obj_id company_data)
      | Inr source_url \<Rightarrow>
          (let key_parts = (if name \<noteq> [] then [''name:'' @ name] else [])
                         @ (if website \<noteq> [] then [''website:'' @ website] else [])
                         @ (if source_url \<noteq> [] then [''source:'' @ source_url] else []);
               key_parts2 = (if key_parts = [] \<and> source_url \<noteq> []
                             then key_parts @ [''source:'' @ source_url] else key_parts)
           in join ''|'' key_parts2))))"

subsection \<open>\<^verbatim>\<open>_is_duplicate_company\<close>\<close>

definition is_duplicate_company :: "scraper \<Rightarrow> company \<Rightarrow> bool" where
  "is_duplicate_company self company_data =
     (generate_company_key company_data \<in> processed_companies self)"

subsection \<open>\<^verbatim>\<open>_load_existing_data\<close>\<close>

text \<open>
  \<^verbatim>\<open>json.load\<close> builds new dictionary objects; \<open>fresh_id i\<close> is the identity of the
  \<open>i\<close>-th of them. The columnar file is not read.
\<close>

definition load_existing_data :: "(nat \<Rightarrow> nat) \<Rightarrow> scraper \<Rightarrow> scraper" where
  "load_existing_data fresh_id self =
     (case json_file self of
        JMissing \<Rightarrow> self
      | JCorrupt \<Rightarrow> self\<lparr>companies_data := [], processed_companies := {}\<rparr>
      | JDoc existing_data \<Rightarrow>
          (let loaded = map (\<lambda>(i, d). \<lparr>obj_id = fresh_id i, items = d\<rparr>)
                           (enumerate 0 existing_data)
           in self\<lparr>companies_data := loaded,
                    processed_companies :=
                      fold (\<lambda>company acc. insert (generate_company_key company) acc)
                           loaded (processed_companies self)\<rparr>))"

text \<open>The state \<^verbatim>\<open>__init__\<close> builds over the files it finds.\<close>

definition new_scraper :: "(nat \<Rightarrow> nat) \<Rightarrow> json_file \<Rightarrow> pyval list list option \<Rightarrow> scraper" where
  "new_scraper fresh_id jf cf =
     load_existing_data fresh_id
       \<lparr>companies_data = [], processed_companies = {}, json_file = jf, csv_file = cf\<rparr>"

subsection \<open>\<^verbatim>\<open>_categorize_social_media\<close>\<close>

record 'a categorized =
  facebook :: string
  instagram :: string
  linkedin :: string
  twitter :: string
  other_socials :: 'a

text \<open>\<^verbatim>\<open>any(platform in url_lower for platform in platforms)\<close>.\<close>

definition any_platform :: "string list \<Rightarrow> string \<Rightarrow> bool" where
  "any_platform platforms url_lower = list_ex (\<lambda>platform. contains url_lower platform) platforms"

fun categorize_loop :: "string list \<Rightarrow> string list categorized \<Rightarrow> string list categorized" where
  "categorize_loop [] categorized = categorized"
| "categorize_loop (social_url # rest) categorized =
     (if social_url = [] then categorize_loop rest categorized
      else
        (let url_lower = lower social_url
         in if any_platform [''facebook.com'', ''fb.com'', ''fb.me''] url_lower then
              categorize_loop rest
                (if facebook categorized = [] then categorized\<lparr>facebook := social_url\<rparr>
                 else categorized)
            else if any_platform [''instagram.com'', ''instagr.am''] url_lower then
              categorize_loop rest
                (if instagram categorized = [] then categorized\<lparr>instagram := social_url\<rparr>
                 else categorized)
            else if any_platform [''linkedin.com'', ''lnkd.in''] url_lower then
              categorize_loop rest
                (if linkedin categorized = [] then categorized\<lparr>linkedin := social_url\<rparr>
                 else categorized)
            else if any_platform [''twitter.com'', ''t.co'', ''x.com''] url_lower then
              categorize_loop rest
                (if twitter categorized = [] then categorized\<lparr>twitter := social_url\<rparr>
                 else categorized)
            else
              categorize_loop rest
                (categorized\<lparr>other_socials := other_socials categorized @ [social_url]\<rparr>)))"

definition categorize_social_media :: "string list option \<Rightarrow> string categorized" where
  "categorize_social_media socials_list =
     (case socials_list of
        None \<Rightarrow> \<lparr>facebook = [], instagram = [], linkedin = [], twitter = [], other_socials = []\<rparr>
      | Some urls \<Rightarrow>
          (if urls = [] then
             \<lparr>facebook = [], instagram = [], linkedin = [], twitter = [], other_socials = []\<rparr>
           else
             (let categorized =
                    categorize_loop urls
                      \<lparr>facebook = [], instagram = [], linkedin = [], twitter = [],
                       other_socials = []\<rparr>
              in \<lparr>facebook = facebook categorized, instagram = instagram categorized,
                  linkedin = linkedin categorized, twitter = twitter categorized,
                  other_socials = join '' | '' (other_socials categorized)\<rparr>)))"

subsection \<open>\<^verbatim>\<open>_save_company_immediately\<close>\<close>

definition fieldnames :: "string list" where
  "fieldnames = [''company_index'', ''name'', ''description'', ''website_url'', ''phone'',
     ''email'', ''logo_url'', ''source_url'', ''facebook'', ''instagram'', ''linkedin'',
     ''twitter'', ''other_socials'']"

text \<open>
  The value of \<^verbatim>\<open>company_data.get("socials", [])\<close> as the argument of
  \<^verbatim>\<open>_categorize_social_media\<close>: a false value takes the early return, a string is
  iterated character by character, and an integer other than zero cannot be iterated.
\<close>

fun socials_argument :: "pyval option \<Rightarrow> py_error + string list option" where
  "socials_argument None = Inr (Some [])"
| "socials_argument (Some PNone) = Inr None"
| "socials_argument (Some (PList l)) = Inr (Some l)"
| "socials_argument (Some (PStr s)) = Inr (Some (map (\<lambda>c. [c]) s))"
| "socials_argument (Some (PInt i)) = (if i = 0 then Inr None else Inl TypeError)"

text \<open>
  The row \<^verbatim>\<open>writer.writerow(company_copy)\<close> writes, or the exception raised on the way:
  \<^verbatim>\<open>csv.DictWriter\<close> raises \<^verbatim>\<open>ValueError\<close> for a key that is not a field name.
\<close>

definition csv_row :: "company \<Rightarrow> py_error + pyval list" where
  "csv_row company_data =
     (case socials_argument (map_of (items company_data) ''socials'') of
        Inl e \<Rightarrow> Inl e
      | Inr socials \<Rightarrow>
          (let social_categories = categorize_social_media socials;
               company_copy =
                 AList.update ''other_socials'' (PStr (other_socials social_categories))
                  (AList.update ''twitter'' (PStr (twitter social_categories))
                   (AList.update ''linkedin'' (PStr (linkedin social_categories))
                    (AList.update ''instagram'' (PStr (instagram social_categories))
                     (AList.update ''facebook'' (PStr (facebook social_categories))
                       (items company_data)))));
               company_copy2 = AList.delete ''socials'' company_copy;
               company_copy3 =
                 fold (\<lambda>field cc.
                         if map_of cc field = None \<or> map_of cc field = Some PNone
                         then AList.update field (PStr []) cc else cc)
                      fieldnames company_copy2
           in if list_ex (\<lambda>(k, v). k \<notin> set fieldnames) company_copy3 then Inl ValueError
              else Inr (map (\<lambda>field. case map_of company_copy3 field of
                                         None \<Rightarrow> PStr [] | Some v \<Rightarrow> v) fieldnames)))"

text \<open>
  What the file system does to one call: nothing, or one of the two \<^verbatim>\<open>open\<close> calls or
  one of the two writes raises \<^verbatim>\<open>OSError\<close>. A document write that fails leaves the
  truncated file behind. A columnar write that fails leaves the file as \<^verbatim>\<open>open\<close> made
  it: created empty, or with the rows it had. When the row cannot be built, the header
  of a new file has been written and the file is closed with it.
\<close>

datatype io_fault = NoFault | JsonOpenFails | JsonWriteFails | CsvOpenFails | CsvWriteFails

text \<open>
  The result is the returned flag and the new state. \<^verbatim>\<open>company_data\<close> is a dictionary,
  as the signature says, so the \<^verbatim>\<open>isinstance\<close> guard passes. Every exception ends in
  the handler, which logs and returns \<^verbatim>\<open>False\<close>.
\<close>

definition save_company_immediately :: "io_fault \<Rightarrow> company \<Rightarrow> scraper \<Rightarrow> bool \<times> scraper" where
  "save_company_immediately io company_data0 self =
     (if is_duplicate_company self company_data0 then (False, self)
      else
        (let company_data =
               dict_set company_data0 ''company_index''
                 (PInt (int (length (companies_data self)) + 1));
             company_key = generate_company_key company_data;
             self1 = self\<lparr>processed_companies := insert company_key (processed_companies self),
                           companies_data := companies_data self @ [company_data]\<rparr>
         in if io = JsonOpenFails then (False, self1)
            else if io = JsonWriteFails then (False, self1\<lparr>json_file := JCorrupt\<rparr>)
            else
              (let self2 = self1\<lparr>json_file := JDoc (map items (companies_data self1))\<rparr>
               in if io = CsvOpenFails then (False, self2)
                  else if io = CsvWriteFails then
                    (False, self2\<lparr>csv_file := Some (case csv_file self2 of
                                                        None \<Rightarrow> []
                                                      | Some old \<Rightarrow> old)\<rparr>)
                  else
                    (let rows = (case csv_file self2 of
                                   None \<Rightarrow> [map PStr fieldnames]
                                 | Some old \<Rightarrow> old)
                     in case csv_row company_data of
                          Inl e \<Rightarrow> (False, self2\<lparr>csv_file := Some rows\<rparr>)
                        | Inr row \<Rightarrow> (True, self2\<lparr>csv_file := Some (rows @ [row])\<rparr>)))))"

text \<open>
  The callers in \<^verbatim>\<open>scrape_companies\<close> submit one candidate after the other and ignore
  the flag; each call meets its own file-system behaviour.
\<close>

fun save_all :: "(io_fault \<times> company) list \<Rightarrow> scraper \<Rightarrow> scraper" where
  "save_all [] self = self"
| "save_all ((io, company_data) # rest) self =
     save_all rest (snd (save_company_immediately io company_data self))"

subsection \<open>\<^verbatim>\<open>normalize_url\<close>\<close>

definition normalize_url :: "string \<Rightarrow> string \<Rightarrow> string option" where
  "normalize_url base_url url =
     (if url = [] then None
      else if startswith url ''//'' then Some (''https:'' @ url)
      else if startswith url ''/'' then Some (urljoin base_url url)
      else if \<not> (startswith url ''http://'' \<or> startswith url ''https://'') then
        (if contains url ''.'' \<and> \<not> startswith url ''.'' then Some (''https://'' @ url)
         else Some (urljoin base_url url))
      else Some url)"

section \<open>Contact extraction: \<^verbatim>\<open>extract_phone_from_text\<close>\<close>

text \<open>
  The table \<^verbatim>\<open>helpers.phone_patterns\<close> is not part of the sources, so the ordered
  pattern list is a parameter. A pattern is represented by what
  \<^verbatim>\<open>re.search(pattern, text)\<close> computes with it: \<open>None\<close> when nothing matches, and
  otherwise the matched text \<^verbatim>\<open>match.group()\<close>.
\<close>

type_synonym pattern = "string \<Rightarrow> string option"

text \<open>\<^verbatim>\<open>re.sub(r"[^\d\+\-\s\(\)]", "", phone)\<close>: the characters that are kept.\<close>

definition phone_char :: "char \<Rightarrow> bool" where
  "phone_char c = (py_isdigit c \<or> c = CHR ''+'' \<or> c = CHR ''-'' \<or> py_isspace c
                    \<or> c = CHR ''('' \<or> c = CHR '')'')"

definition clean_phone :: "string \<Rightarrow> string" where
  "clean_phone m = filter phone_char m"

fun phone_loop :: "pattern list \<Rightarrow> string \<Rightarrow> string option" where
  "phone_loop [] text = None"
| "phone_loop (p # ps) text =
     (case p text of
        None \<Rightarrow> phone_loop ps text
      | Some m \<Rightarrow>
          (let phone = clean_phone m
           in if 10 \<le> length phone then Some (strip phone) else phone_loop ps text))"

definition extract_phone_from_text :: "pattern list \<Rightarrow> string \<Rightarrow> string option" where
  "extract_phone_from_text phone_patterns text =
     (if text = [] then None else phone_loop phone_patterns text)"

section \<open>Notions used in the statements\<close>

text \<open>
  The record as \<^verbatim>\<open>_save_company_immediately\<close> stores it: with the next sequential
  \<^verbatim>\<open>company_index\<close>.
\<close>

definition with_index :: "scraper \<Rightarrow> company \<Rightarrow> company" where
  "with_index self c = dict_set c ''company_index'' (PInt (int (length (companies_data self)) + 1))"

text \<open>
  The stored indices are \<open>1, 2, ..., N\<close> in the order of the list.
\<close>

definition dense_indices :: "scraper \<Rightarrow> bool" where
  "dense_indices self =
     (map (\<lambda>c. dict_get c ''company_index'') (companies_data self)
        = map (\<lambda>i. PInt (int i)) [1..<Suc (length (companies_data self))])"

text \<open>
  A run of calls, each with the behaviour of the file system it meets: the flags the
  calls return, the \<^verbatim>\<open>company_index\<close> of the records whose call returned \<^verbatim>\<open>True\<close>
  (the record is the last element of \<^verbatim>\<open>companies_data\<close> when its call returns), and
  the runs in which no call fails after the duplicate check: every call is refused as a
  duplicate or returns \<^verbatim>\<open>True\<close>.
\<close>

fun save_flags :: "(io_fault \<times> company) list \<Rightarrow> scraper \<Rightarrow> bool list" where
  "save_flags [] self = []"
| "save_flags ((io, company_data) # rest) self =
     fst (save_company_immediately io company_data self)
     # save_flags rest (snd (save_company_immediately io company_data self))"

fun accepted_indices :: "(io_fault \<times> company) list \<Rightarrow> scraper \<Rightarrow> pyval list" where
  "accepted_indices [] self = []"
| "accepted_indices ((io, company_data) # rest) self =
     (if fst (save_company_immediately io company_data self)
      then [dict_get (last (companies_data (snd (save_company_immediately io company_data self))))
              ''company_index'']
      else [])
     @ accepted_indices rest (snd (save_company_immediately io company_data self))"

fun no_failed_write :: "(io_fault \<times> company) list \<Rightarrow> scraper \<Rightarrow> bool" where
  "no_failed_write [] self = True"
| "no_failed_write ((io, company_data) # rest) self =
     ((is_duplicate_company self company_data
         \<or> fst (save_company_immediately io company_data self))
      \<and> no_failed_write rest (snd (save_company_immediately io company_data self)))"

text \<open>
  The identity fields of a record of the data model are optional strings. For such a
  record \<open>norm_field\<close> is the whitespace-trimmed, case-folded field (empty when the
  field is absent), and \<open>composite_key\<close> joins the labelled non-empty parts.
\<close>

fun optional_str :: "pyval \<Rightarrow> bool" where
  "optional_str PNone = True"
| "optional_str (PStr s) = True"
| "optional_str v = False"

definition well_typed :: "company \<Rightarrow> bool" where
  "well_typed c = (optional_str (dict_get c ''name'') \<and> optional_str (dict_get c ''website_url'')
                    \<and> optional_str (dict_get c ''source_url''))"

fun norm_field :: "pyval \<Rightarrow> string" where
  "norm_field (PStr s) = lower (strip s)"
| "norm_field v = []"

definition key_parts :: "string \<Rightarrow> string \<Rightarrow> string \<Rightarrow> string list" where
  "key_parts name website source_url =
     (if name \<noteq> [] then [''name:'' @ name] else [])
     @ (if website \<noteq> [] then [''website:'' @ website] else [])
     @ (if source_url \<noteq> [] then [''source:'' @ source_url] else [])"

definition composite_key :: "string \<Rightarrow> string \<Rightarrow> string \<Rightarrow> string" where
  "composite_key name website source_url =
     join ''|'' ((if name \<noteq> [] then [''name:'' @ name] else [])
                 @ (if website \<noteq> [] then [''website:'' @ website] else [])
                 @ (if source_url \<noteq> [] then [''source:'' @ source_url] else []))"

definition same_identity :: "company \<Rightarrow> company \<Rightarrow> bool" where
  "same_identity a b =
     (norm_field (dict_get a ''name'') = norm_field (dict_get b ''name'')
      \<and> norm_field (dict_get a ''website_url'') = norm_field (dict_get b ''website_url'')
      \<and> norm_field (dict_get a ''source_url'') = norm_field (dict_get b ''source_url''))"

text \<open>
  None of the three trimmed, case-folded fields contains the separator of the key.
\<close>

definition no_pipe :: "company \<Rightarrow> bool" where
  "no_pipe c = (CHR ''|'' \<notin> set (norm_field (dict_get c ''name''))
               \<and> CHR ''|'' \<notin> set (norm_field (dict_get c ''website_url''))
               \<and> CHR ''|'' \<notin> set (norm_field (dict_get c ''source_url'')))"

text \<open>
  The three identity fields are empty after trimming; key generation raises.
\<close>

definition all_empty :: "company \<Rightarrow> bool" where
  "all_empty c = (key_field (dict_get c ''name'') = Inr []
                  \<and> key_field (dict_get c ''website_url'') = Inr []
                  \<and> key_field (dict_get c ''source_url'') = Inr [])"

definition key_raises :: "company \<Rightarrow> bool" where
  "key_raises c = (isl (key_field (dict_get c ''name''))
                   \<or> isl (key_field (dict_get c ''website_url''))
                   \<or> isl (key_field (dict_get c ''source_url'')))"

text \<open>
  The invariant of a run without file-system faults: the dedup set holds the keys of the
  accepted records, and the document file holds the accepted records.
\<close>

definition in_sync :: "scraper \<Rightarrow> bool" where
  "in_sync self =
     (processed_companies self = generate_company_key ` set (companies_data self)
      \<and> list_all well_typed (companies_data self)
      \<and> (json_file self = JDoc (map items (companies_data self))
           \<or> (companies_data self = [] \<and> json_file self = JMissing)))"

text \<open>
  The platform a URL is filed under by the \<^verbatim>\<open>if\<close>/\<^verbatim>\<open>elif\<close> chain of
  \<^verbatim>\<open>_categorize_social_media\<close>, and the first non-empty URL of a list filed under a
  platform (the empty string when there is none).
\<close>

datatype platform = Facebook | Instagram | Linkedin | Twitter | Other

definition platform_of :: "string \<Rightarrow> platform" where
  "platform_of social_url =
     (let url_lower = lower social_url
      in if any_platform [''facebook.com'', ''fb.com'', ''fb.me''] url_lower then Facebook
         else if any_platform [''instagram.com'', ''instagr.am''] url_lower then Instagram
         else if any_platform [''linkedin.com'', ''lnkd.in''] url_lower then Linkedin
         else if any_platform [''twitter.com'', ''t.co'', ''x.com''] url_lower then Twitter
         else Other)"

definition first_url :: "platform \<Rightarrow> string list \<Rightarrow> string" where
  "first_url p urls =
     (case List.find (\<lambda>u. u \<noteq> [] \<and> platform_of u = p) urls of None \<Rightarrow> [] | Some u \<Rightarrow> u)"

definition slot :: "string \<Rightarrow> platform \<Rightarrow> string list \<Rightarrow> string" where
  "slot cur p urls = (if cur \<noteq> [] then cur else first_url p urls)"

text \<open>
  A pattern is rejected on a text when it does not match, or its match cleans to fewer
  than ten characters.
\<close>

definition rejected :: "pattern \<Rightarrow> string \<Rightarrow> bool" where
  "rejected p text = (case p text of None \<Rightarrow> True | Some m \<Rightarrow> length (clean_phone m) < 10)"

text \<open>
  The scheme test of \<^verbatim>\<open>normalize_url\<close>, and the inputs without a scheme: the ones in
  which \<^verbatim>\<open>urlparse\<close> finds none.
\<close>

definition http_prefixed :: "string \<Rightarrow> bool" where
  "http_prefixed url = (startswith url ''http://'' \<or> startswith url ''https://'')"

definition scheme_less :: "string \<Rightarrow> bool" where
  "scheme_less url = (scheme (urlparse url []) = [])"

subsection \<open>Example records\<close>

text \<open>
  Two sightings of one exhibitor that differ in case and surrounding whitespace, a second
  exhibitor and a third reached from the same listing URL, two records whose fields
  contain the separator of the key, two records without identity, a record whose name is
  not a string, and two sightings of one exhibitor that differ in a capital letter with
  an accent (code points 201 and 233) and a trailing no-break space (code point 160).
\<close>

definition acme :: company where
  "acme = \<lparr>obj_id = 1, items =
     [(''name'', PStr ''Acme Corp''), (''logo_url'', PNone), (''description'', PNone),
      (''website_url'', PStr ''https://acme.com''), (''phone'', PNone), (''email'', PNone),
      (''socials'', PList [''https://facebook.com/acme'']),
      (''source_url'', PStr ''https://fair.example/list'')]\<rparr>"

definition acme_again :: company where
  "acme_again = \<lparr>obj_id = 2, items =
     [(''name'', PStr ''  ACME corp ''), (''logo_url'', PNone), (''description'', PNone),
      (''website_url'', PStr ''HTTPS://acme.com''), (''phone'', PNone), (''email'', PNone),
      (''socials'', PList []), (''source_url'', PStr ''https://fair.example/list'')]\<rparr>"

definition bolt :: company where
  "bolt = \<lparr>obj_id = 3, items =
     [(''name'', PStr ''Bolt Ltd''), (''logo_url'', PNone), (''description'', PNone),
      (''website_url'', PNone), (''phone'', PNone), (''email'', PNone),
      (''socials'', PList []), (''source_url'', PStr ''https://fair.example/list'')]\<rparr>"

definition carl :: company where
  "carl = \<lparr>obj_id = 9, items =
     [(''name'', PStr ''Carl GmbH''), (''logo_url'', PNone), (''description'', PNone),
      (''website_url'', PStr ''https://carl.example''), (''phone'', PNone), (''email'', PNone),
      (''socials'', PList []), (''source_url'', PStr ''https://fair.example/list'')]\<rparr>"

definition pipe_a :: company where
  "pipe_a = \<lparr>obj_id = 4, items =
     [(''name'', PStr ''A|website:b''), (''website_url'', PStr ''c''),
      (''source_url'', PStr ''https://x/1'')]\<rparr>"

definition pipe_b :: company where
  "pipe_b = \<lparr>obj_id = 5, items =
     [(''name'', PStr ''A''), (''website_url'', PStr ''b|website:c''),
      (''source_url'', PStr ''https://x/1'')]\<rparr>"

definition blank_a :: company where
  "blank_a = \<lparr>obj_id = 6, items =
     [(''name'', PNone), (''description'', PStr ''first''), (''website_url'', PNone),
      (''source_url'', PStr '''')]\<rparr>"

definition blank_b :: company where
  "blank_b = \<lparr>obj_id = 7, items =
     [(''name'', PStr ''  ''), (''description'', PStr ''second''), (''website_url'', PNone),
      (''source_url'', PNone)]\<rparr>"

definition odd_name :: company where
  "odd_name = \<lparr>obj_id = 8, items = [(''name'', PInt 42), (''source_url'', PStr ''https://x/2'')]\<rparr>"

definition eclair_a :: company where
  "eclair_a = \<lparr>obj_id = 10, items =
     [(''name'', PStr (CHR 0xC9 # ''clair SA'' @ [CHR 0xA0])), (''website_url'', PNone),
      (''source_url'', PStr ''https://fair.example/list'')]\<rparr>"

definition eclair_b :: company where
  "eclair_b = \<lparr>obj_id = 11, items =
     [(''name'', PStr (CHR 0xE9 # ''clair sa'')), (''website_url'', PStr []),
      (''source_url'', PStr ''https://fair.example/list'')]\<rparr>"

definition empty_store :: scraper where
  "empty_store = new_scraper (\<lambda>i. i) JMissing None"

section \<open>Auxiliary lemmas\<close>

lemma dict_get_dict_set: "dict_get (dict_set c k v) k' = (if k' = k then v else dict_get c k')"
  by (simp add: dict_get_def dict_set_def update_conv')

lemma obj_id_dict_set: "obj_id (dict_set c k v) = obj_id c"
  by (simp add: dict_set_def)

lemma key_company_index:
  "generate_company_key (dict_set c ''company_index'' v) = generate_company_key c"
  by (simp add: generate_company_key_def dict_get_dict_set obj_id_dict_set cong: sum.case_cong)

lemma save_duplicate:
  "is_duplicate_company self c \<Longrightarrow> save_company_immediately io c self = (False, self)"
  by (simp add: save_company_immediately_def)

lemma save_new_memory:
  assumes "\<not> is_duplicate_company self c"
  shows "companies_data (snd (save_company_immediately io c self))
           = companies_data self @ [with_index self c]"
    and "processed_companies (snd (save_company_immediately io c self))
           = insert (generate_company_key c) (processed_companies self)"
  using assms
  by (auto simp: save_company_immediately_def Let_def key_company_index with_index_def
           split: sum.splits option.splits)

lemma save_new_flag:
  assumes "\<not> is_duplicate_company self c"
  shows "fst (save_company_immediately io c self)
           = (io = NoFault \<and> \<not> isl (csv_row (with_index self c)))"
  using assms
  by (cases io) (auto simp: save_company_immediately_def Let_def with_index_def split: sum.splits)

lemma save_new_json:
  assumes "\<not> is_duplicate_company self c" "io \<noteq> JsonOpenFails" "io \<noteq> JsonWriteFails"
  shows "json_file (snd (save_company_immediately io c self))
           = JDoc (map items (companies_data self @ [with_index self c]))"
  using assms
  by (cases io) (auto simp: save_company_immediately_def Let_def with_index_def split: sum.splits)

lemma dense_indices_save:
  assumes "dense_indices self"
  shows "dense_indices (snd (save_company_immediately io c self))"
proof (cases "is_duplicate_company self c")
  case True
  then show ?thesis using assms by (simp add: save_duplicate)
next
  case False
  show ?thesis
    using assms
    by (simp add: dense_indices_def save_new_memory(1)[OF False] with_index_def dict_get_dict_set)
qed

lemma dense_indices_save_all:
  "dense_indices self \<Longrightarrow> dense_indices (save_all jobs self)"
proof (induction jobs arbitrary: self)
  case Nil
  then show ?case by simp
next
  case (Cons j jobs)
  obtain io c where j: "j = (io, c)" by (cases j)
  show ?case using Cons.IH[OF dense_indices_save[OF Cons.prems, of io c]] by (simp add: j)
qed

lemma new_scraper_missing:
  "new_scraper fresh_id JMissing cf
     = \<lparr>companies_data = [], processed_companies = {}, json_file = JMissing, csv_file = cf\<rparr>"
  by (simp add: new_scraper_def load_existing_data_def)

lemma strip_Nil [simp]: "strip [] = []"
  by (simp add: strip_def lstrip_def rstrip_def)

lemma lower_Nil [simp]: "lower [] = []"
  by (simp add: lower_def)

lemma key_field_optional_str: "optional_str v \<Longrightarrow> key_field v = Inr (norm_field v)"
  by (cases v) auto

lemma key_well_typed:
  "well_typed c \<Longrightarrow>
     generate_company_key c
       = composite_key (norm_field (dict_get c ''name'')) (norm_field (dict_get c ''website_url''))
           (norm_field (dict_get c ''source_url''))"
proof -
  assume wt: "well_typed c"
  have body: "(let key_parts = (if n \<noteq> [] then [''name:'' @ n] else [])
                         @ (if w \<noteq> [] then [''website:'' @ w] else [])
                         @ (if s \<noteq> [] then [''source:'' @ s] else []);
               key_parts2 = (if key_parts = [] \<and> s \<noteq> []
                             then key_parts @ [''source:'' @ s] else key_parts)
           in join ''|'' key_parts2) = composite_key n w s" for n w s :: string
    by (cases "n = []"; cases "w = []"; cases "s = []") (simp_all add: composite_key_def)
  from wt have k: "key_field (dict_get c ''name'') = Inr (norm_field (dict_get c ''name''))"
    "key_field (dict_get c ''website_url'') = Inr (norm_field (dict_get c ''website_url''))"
    "key_field (dict_get c ''source_url'') = Inr (norm_field (dict_get c ''source_url''))"
    by (simp_all add: well_typed_def key_field_optional_str)
  show ?thesis
    unfolding generate_company_key_def k sum.case body ..
qed

lemma dict_get_items: "items c' = items c \<Longrightarrow> dict_get c' k = dict_get c k"
  by (simp add: dict_get_def)

lemma well_typed_items: "items c' = items c \<Longrightarrow> well_typed c' = well_typed c"
  by (simp add: well_typed_def dict_get_def)

lemma key_items:
  assumes "well_typed c" and "items c' = items c"
  shows "generate_company_key c' = generate_company_key c"
proof -
  have "well_typed c'" using assms well_typed_items[of c' c] by simp
  then show ?thesis
    by (simp add: key_well_typed assms(1) dict_get_items[OF assms(2)])
qed

lemma well_typed_with_index: "well_typed (with_index self c) = well_typed c"
  by (simp add: well_typed_def with_index_def dict_get_dict_set)

lemma key_with_index: "generate_company_key (with_index self c) = generate_company_key c"
  by (simp add: with_index_def key_company_index)

lemma map_key_items:
  "map items xs = map items ys \<Longrightarrow> list_all well_typed ys
     \<Longrightarrow> map generate_company_key xs = map generate_company_key ys"
proof (induction xs arbitrary: ys)
  case Nil
  then show ?case by simp
next
  case (Cons x xs)
  then obtain y ys' where ys: "ys = y # ys'" by (cases ys) auto
  with Cons.prems have "items x = items y" "well_typed y" "map items xs = map items ys'"
    "list_all well_typed ys'" by auto
  then show ?case using Cons.IH[of ys'] key_items[of y x] by (simp add: ys)
qed

lemma fold_insert_keys:
  "fold (\<lambda>company acc. insert (f company) acc) xs A = A \<union> f ` set xs"
  by (induction xs arbitrary: A) auto

lemma items_loaded:
  "map items (map (\<lambda>(i, d). \<lparr>obj_id = fresh_id i, items = d\<rparr>) (enumerate n ds)) = ds"
  by (induction ds arbitrary: n) auto

lemma in_sync_save:
  assumes "in_sync self" "well_typed c"
  shows "in_sync (snd (save_company_immediately NoFault c self))"
proof (cases "is_duplicate_company self c")
  case True
  then show ?thesis using assms by (simp add: save_duplicate)
next
  case False
  show ?thesis
    using assms
    by (simp add: in_sync_def save_new_memory[OF False] save_new_json[OF False]
        well_typed_with_index key_with_index)
qed

lemma key_processed_save:
  "generate_company_key c \<in> processed_companies (snd (save_company_immediately io c self))"
  by (cases "is_duplicate_company self c")
     (simp_all add: save_duplicate save_new_memory is_duplicate_company_def)

lemma processed_mono_save:
  "processed_companies self \<subseteq> processed_companies (snd (save_company_immediately io c self))"
  by (cases "is_duplicate_company self c") (auto simp: save_duplicate save_new_memory)

lemma processed_mono_save_all:
  "processed_companies self \<subseteq> processed_companies (save_all jobs self)"
proof (induction jobs arbitrary: self)
  case Nil
  then show ?case by simp
next
  case (Cons j jobs)
  obtain io c where j: "j = (io, c)" by (cases j)
  show ?case using Cons.IH processed_mono_save[of self io c] by (auto simp: j)
qed

lemma keys_processed_save_all:
  "c \<in> set (map snd jobs) \<Longrightarrow> generate_company_key c \<in> processed_companies (save_all jobs self)"
proof (induction jobs arbitrary: self)
  case Nil
  then show ?case by simp
next
  case (Cons j jobs)
  obtain io d where j: "j = (io, d)" by (cases j)
  show ?case
  proof (cases "c = d")
    case True
    then show ?thesis
      using key_processed_save[of d io self] processed_mono_save_all by (auto simp: j)
  next
    case False
    with Cons.prems have "c \<in> set (map snd jobs)" by (simp add: j)
    from Cons.IH[OF this] show ?thesis by (simp add: j)
  qed
qed

lemma in_sync_save_all:
  "in_sync self \<Longrightarrow> list_all well_typed rs
     \<Longrightarrow> in_sync (save_all (map (Pair NoFault) rs) self)"
proof (induction rs arbitrary: self)
  case Nil
  then show ?case by simp
next
  case (Cons r rs)
  then show ?case using in_sync_save[of self r] by simp
qed

lemma reload_in_sync:
  assumes "in_sync self"
  shows "processed_companies (new_scraper fresh_id (json_file self) cf) = processed_companies self"
    and "map items (companies_data (new_scraper fresh_id (json_file self) cf))
           = map items (companies_data self)"
proof -
  from assms consider
      (doc) "json_file self = JDoc (map items (companies_data self))"
    | (none) "companies_data self = []" "json_file self = JMissing"
    by (auto simp: in_sync_def)
  then have "processed_companies (new_scraper fresh_id (json_file self) cf) = processed_companies self
     \<and> map items (companies_data (new_scraper fresh_id (json_file self) cf))
           = map items (companies_data self)"
  proof cases
    case doc
    let ?loaded = "map (\<lambda>(i, d). \<lparr>obj_id = fresh_id i, items = d\<rparr>)
                      (enumerate 0 (map items (companies_data self)))"
    have i: "map items ?loaded = map items (companies_data self)" by (rule items_loaded)
    have "map generate_company_key ?loaded = map generate_company_key (companies_data self)"
      using map_key_items[OF i] assms by (simp add: in_sync_def)
    then have "set (map generate_company_key ?loaded)
                 = set (map generate_company_key (companies_data self))" by (rule arg_cong)
    then have k: "generate_company_key ` set ?loaded
                 = generate_company_key ` set (companies_data self)" by (simp only: set_map)
    show ?thesis
      using assms i k
      by (simp add: new_scraper_def load_existing_data_def doc Let_def fold_insert_keys in_sync_def)
  next
    case none
    then show ?thesis using assms
      by (simp add: new_scraper_def load_existing_data_def in_sync_def)
  qed
  then show "processed_companies (new_scraper fresh_id (json_file self) cf) = processed_companies self"
    and "map items (companies_data (new_scraper fresh_id (json_file self) cf))
           = map items (companies_data self)" by simp_all
qed

lemma save_all_duplicates:
  "list_all (\<lambda>(io, c). is_duplicate_company self c) jobs \<Longrightarrow> save_all jobs self = self"
  by (induction jobs) (auto simp: save_duplicate)

lemma split_on_no_sep: "c \<notin> set p \<Longrightarrow> split_on c p = [p]"
  by (induction p) auto

lemma split_on_append: "c \<notin> set p \<Longrightarrow> split_on c (p @ c # r) = p # split_on c r"
  by (induction p) auto

lemma split_on_join:
  "ps \<noteq> [] \<Longrightarrow> list_all (\<lambda>p. c \<notin> set p) ps \<Longrightarrow> split_on c (join [c] ps) = ps"
proof (induction "[c]" ps rule: join.induct)
  case 1
  then show ?case by simp
next
  case (2 p)
  then show ?case by (simp add: split_on_no_sep)
next
  case (3 p q ps)
  then show ?case by (simp add: split_on_append)
qed

lemma composite_key_parts: "composite_key n w s = join ''|'' (key_parts n w s)"
  by (simp add: composite_key_def key_parts_def)

lemma key_parts_pipe_free:
  "CHR ''|'' \<notin> set n \<Longrightarrow> CHR ''|'' \<notin> set w \<Longrightarrow> CHR ''|'' \<notin> set s
     \<Longrightarrow> list_all (\<lambda>p. CHR ''|'' \<notin> set p) (key_parts n w s)"
  by (simp add: key_parts_def)

lemma key_parts_nonempty: "key_parts n w s \<noteq> [[]]" "[[]] \<noteq> key_parts n w s"
  by (simp_all add: key_parts_def)

lemma key_parts_inj:
  "key_parts n w s = key_parts n' w' s' \<Longrightarrow> n = n' \<and> w = w' \<and> s = s'"
  by (cases "n = []"; cases "w = []"; cases "s = []"; cases "n' = []"; cases "w' = []";
      cases "s' = []") (simp_all add: key_parts_def)

lemma split_composite:
  assumes "CHR ''|'' \<notin> set n" "CHR ''|'' \<notin> set w" "CHR ''|'' \<notin> set s"
  shows "split_on CHR ''|'' (composite_key n w s)
           = (if key_parts n w s = [] then [[]] else key_parts n w s)"
  using split_on_join[of "key_parts n w s" "CHR ''|''"] key_parts_pipe_free[OF assms]
  by (auto simp: composite_key_parts)

lemma composite_key_inj:
  assumes "CHR ''|'' \<notin> set n" "CHR ''|'' \<notin> set w" "CHR ''|'' \<notin> set s"
    and "CHR ''|'' \<notin> set n'" "CHR ''|'' \<notin> set w'" "CHR ''|'' \<notin> set s'"
    and eq: "composite_key n w s = composite_key n' w' s'"
  shows "n = n' \<and> w = w' \<and> s = s'"
proof -
  have "(if key_parts n w s = [] then [[]] else key_parts n w s)
          = (if key_parts n' w' s' = [] then [[]] else key_parts n' w' s')"
    using split_composite[OF assms(1-3)] split_composite[OF assms(4-6)] eq by simp
  then have "key_parts n w s = key_parts n' w' s'"
    by (simp add: key_parts_nonempty split: if_splits)
  then show ?thesis by (rule key_parts_inj)
qed

lemma is_duplicate_after_save:
  "is_duplicate_company (snd (save_company_immediately io c self)) d
     = (generate_company_key d = generate_company_key c \<or> is_duplicate_company self d)"
  by (cases "is_duplicate_company self c")
     (auto simp: save_duplicate save_new_memory is_duplicate_company_def)

lemma key_all_empty: "all_empty c \<Longrightarrow> generate_company_key c = []"
  by (simp add: all_empty_def generate_company_key_def)

lemma key_raises_fallback:
  assumes "key_raises c"
  shows "generate_company_key c = ''fallback:'' @ str_nat (obj_id c)"
proof (cases "key_field (dict_get c ''name'')")
  case Inl
  then show ?thesis by (simp add: generate_company_key_def)
next
  case n: (Inr n)
  show ?thesis
  proof (cases "key_field (dict_get c ''website_url'')")
    case Inl
    then show ?thesis by (simp add: generate_company_key_def n)
  next
    case w: (Inr w)
    show ?thesis
    proof (cases "key_field (dict_get c ''source_url'')")
      case Inl
      then show ?thesis by (simp add: generate_company_key_def n w)
    next
      case (Inr s)
      with n w assms show ?thesis by (simp add: key_raises_def)
    qed
  qed
qed

lemma composite_key_not_fallback: "composite_key n w s \<noteq> ''fallback:'' @ t"
  by (cases "n = []"; cases "w = []"; cases "s = []") (simp_all add: composite_key_def)

lemma key_no_raise:
  assumes "\<not> key_raises c"
  shows "\<exists>n w s. generate_company_key c = composite_key n w s"
proof -
  from assms obtain n w s where k: "key_field (dict_get c ''name'') = Inr n"
    "key_field (dict_get c ''website_url'') = Inr w"
    "key_field (dict_get c ''source_url'') = Inr s"
    by (cases "key_field (dict_get c ''name'')"; cases "key_field (dict_get c ''website_url'')";
        cases "key_field (dict_get c ''source_url'')") (simp_all add: key_raises_def)
  have body: "(let key_parts = (if n \<noteq> [] then [''name:'' @ n] else [])
                         @ (if w \<noteq> [] then [''website:'' @ w] else [])
                         @ (if s \<noteq> [] then [''source:'' @ s] else []);
               key_parts2 = (if key_parts = [] \<and> s \<noteq> []
                             then key_parts @ [''source:'' @ s] else key_parts)
           in join ''|'' key_parts2) = composite_key n w s"
    by (cases "n = []"; cases "w = []"; cases "s = []") (simp_all add: composite_key_def)
  have "generate_company_key c = composite_key n w s"
    unfolding generate_company_key_def k sum.case body ..
  then show ?thesis by blast
qed

lemma slot_skip: "u = [] \<or> platform_of u \<noteq> p \<Longrightarrow> slot cur p (u # urls) = slot cur p urls"
  by (auto simp: slot_def first_url_def)

lemma slot_take: "u \<noteq> [] \<Longrightarrow> platform_of u = p \<Longrightarrow> slot cur p (u # urls) = (if cur \<noteq> [] then cur else u)"
  by (simp add: slot_def first_url_def)

lemma slot_set: "cur \<noteq> [] \<Longrightarrow> slot cur p urls = cur"
  by (simp add: slot_def)

lemma categorize_step:
  "categorize_loop (u # rest) cat =
     (if u = [] then categorize_loop rest cat
      else case platform_of u of
             Facebook \<Rightarrow> categorize_loop rest (if facebook cat = [] then cat\<lparr>facebook := u\<rparr> else cat)
           | Instagram \<Rightarrow> categorize_loop rest (if instagram cat = [] then cat\<lparr>instagram := u\<rparr> else cat)
           | Linkedin \<Rightarrow> categorize_loop rest (if linkedin cat = [] then cat\<lparr>linkedin := u\<rparr> else cat)
           | Twitter \<Rightarrow> categorize_loop rest (if twitter cat = [] then cat\<lparr>twitter := u\<rparr> else cat)
           | Other \<Rightarrow> categorize_loop rest (cat\<lparr>other_socials := other_socials cat @ [u]\<rparr>))"
  by (simp add: platform_of_def Let_def)

lemma categorize_loop_result:
  "categorize_loop urls cat =
     \<lparr>facebook = slot (facebook cat) Facebook urls,
      instagram = slot (instagram cat) Instagram urls,
      linkedin = slot (linkedin cat) Linkedin urls,
      twitter = slot (twitter cat) Twitter urls,
      other_socials = other_socials cat @ filter (\<lambda>u. u \<noteq> [] \<and> platform_of u = Other) urls\<rparr>"
proof (induction urls arbitrary: cat)
  case Nil
  show ?case by (simp add: slot_def first_url_def)
next
  case (Cons u urls)
  show ?case
  proof (cases "u = []")
    case True
    then show ?thesis by (simp add: Cons.IH slot_skip del: categorize_loop.simps add: categorize_step)
  next
    case False
    then show ?thesis
      by (cases "platform_of u")
         (simp_all add: Cons.IH slot_skip slot_take slot_set categorize_step
            del: categorize_loop.simps)
  qed
qed

lemma categorize_example: "categorize_social_media
     (Some [''https://facebook.com/a'', ''https://instagram.com/b'', ''https://facebook.com/c'',
            ''https://foo.bar/d''])
   = \<lparr>facebook = ''https://facebook.com/a'', instagram = ''https://instagram.com/b'',
      linkedin = [], twitter = [], other_socials = ''https://foo.bar/d''\<rparr>"
  by code_simp

lemma normalize_protocol_relative_example: "normalize_url ''https://site.com'' ''//cdn.example.com/a.png'' = Some ''https://cdn.example.com/a.png''"
  by code_simp

lemma normalize_root_relative_example: "normalize_url ''https://site.com'' ''/about'' = Some ''https://site.com/about''"
  by code_simp

lemma normalize_leading_dot_example: "normalize_url ''https://site.com'' ''./a.png'' = Some ''https://site.com/a.png''"
  by code_simp

lemma csv_filename_inner_www: "csv_filename ''https://awww.example.com'' = ''aexample_com_companies.csv''"
  by code_simp

lemma json_filename_leading_www: "json_filename ''https://www.example.com/list'' = ''example_com_companies.json''"
  by code_simp

lemma contains_char: "contains s [c] = (c \<in> set s)"
  by (induction s) auto

lemma startswith_slashes: "startswith url ''//'' \<Longrightarrow> startswith url ''/'' \<and> url \<noteq> []"
  by (cases url) auto

lemma http_not_slash: "http_prefixed url \<Longrightarrow> \<not> startswith url ''/'' \<and> \<not> startswith url ''//'' \<and> url \<noteq> []"
  by (cases url) (auto simp: http_prefixed_def)

lemma key_acme: "generate_company_key acme = ''name:acme corp|website:https://acme.com|source:https://fair.example/list''"
  by code_simp

lemma key_acme_again: "generate_company_key acme_again = ''name:acme corp|website:https://acme.com|source:https://fair.example/list''"
  by code_simp

lemma key_bolt: "generate_company_key bolt = ''name:bolt ltd|source:https://fair.example/list''"
  by code_simp

lemma key_pipe_a: "generate_company_key pipe_a = ''name:a|website:b|website:c|source:https://x/1''"
  by code_simp

lemma key_pipe_b: "generate_company_key pipe_b = ''name:a|website:b|website:c|source:https://x/1''"
  by code_simp

lemma key_odd_name: "generate_company_key odd_name = ''fallback:8''"
  by code_simp

lemma examples_well_typed: "well_typed acme \<and> well_typed acme_again \<and> well_typed bolt \<and> well_typed pipe_a \<and> well_typed pipe_b"
  by code_simp

lemma examples_empty_or_raising: "all_empty blank_a \<and> all_empty blank_b \<and> key_raises odd_name"
  by code_simp

lemma examples_identity: "same_identity acme acme_again \<and> \<not> same_identity acme bolt \<and> no_pipe acme \<and> no_pipe bolt"
  by code_simp

lemma empty_store_fields: "processed_companies empty_store = {}" "companies_data empty_store = []"
  "json_file empty_store = JMissing" "csv_file empty_store = None"
  by (simp_all add: empty_store_def new_scraper_missing)

lemma csv_row_acme_ok: "\<not> isl (csv_row (with_index empty_store acme))"
  by code_simp

lemma csv_row_bolt: "csv_row (dict_set bolt ''company_index'' (PInt 2)) =
   Inr [PInt 2, PStr ''Bolt Ltd'', PStr [], PStr [], PStr [], PStr [], PStr [],
        PStr ''https://fair.example/list'', PStr [], PStr [], PStr [], PStr [], PStr []]"
  by code_simp

lemma csv_row_acme: "csv_row (with_index empty_store acme) =
   Inr [PInt 1, PStr ''Acme Corp'', PStr [], PStr ''https://acme.com'', PStr [], PStr [], PStr [],
        PStr ''https://fair.example/list'', PStr ''https://facebook.com/acme'', PStr [], PStr [], PStr [], PStr []]"
  by code_simp

lemma empty_store_no_duplicate: "\<not> is_duplicate_company empty_store c"
  by (simp add: is_duplicate_company_def empty_store_fields)

lemma duplicate_after_acme: "is_duplicate_company (snd (save_company_immediately io acme empty_store)) c
            = (generate_company_key c = generate_company_key acme)"
  by (simp add: is_duplicate_after_save empty_store_no_duplicate)

lemma phone_loop_rejected: "rejected p text \<Longrightarrow> phone_loop (p # ps) text = phone_loop ps text"
  by (auto simp: rejected_def Let_def split: option.splits)

lemma phone_loop_None: "phone_loop pats text = None \<longleftrightarrow> list_all (\<lambda>p. rejected p text) pats"
  by (induction pats) (auto simp: rejected_def Let_def split: option.splits)

lemma set_rstrip: "set (rstrip s) \<subseteq> set s"
  using set_dropWhileD[of _ py_isspace "rev s"] by (auto simp: rstrip_def)

lemma set_strip: "set (strip s) \<subseteq> set s"
  using set_rstrip[of "lstrip s"] set_dropWhileD[of _ py_isspace s]
  by (auto simp: strip_def lstrip_def)

lemma strip_clean_chars: "list_all phone_char (strip (clean_phone m))"
  using set_strip[of "clean_phone m"] by (auto simp: list_all_iff clean_phone_def)

lemma phone_loop_Some:
  "phone_loop pats text = Some r \<Longrightarrow>
     \<exists>ps1 p ps2 m. pats = ps1 @ p # ps2 \<and> list_all (\<lambda>q. rejected q text) ps1 \<and> p text = Some m
        \<and> 10 \<le> length (clean_phone m) \<and> r = strip (clean_phone m)"
proof (induction pats)
  case Nil
  then show ?case by simp
next
  case (Cons q qs)
  show ?case
  proof (cases "rejected q text")
    case True
    with Cons.prems have "phone_loop qs text = Some r"
      by (simp add: phone_loop_rejected del: phone_loop.simps)
    from Cons.IH[OF this] obtain ps1 p ps2 m where
      h: "qs = ps1 @ p # ps2" "list_all (\<lambda>q. rejected q text) ps1" "p text = Some m"
         "10 \<le> length (clean_phone m)" "r = strip (clean_phone m)" by blast
    show ?thesis
      apply (rule exI[of _ "q # ps1"], rule exI[of _ p], rule exI[of _ ps2], rule exI[of _ m])
      using h True by simp
  next
    case False
    then obtain m where m: "q text = Some m" "10 \<le> length (clean_phone m)"
      by (auto simp: rejected_def split: option.splits)
    with Cons.prems have "r = strip (clean_phone m)" by (simp add: Let_def)
    show ?thesis
      apply (rule exI[of _ "[]"], rule exI[of _ q], rule exI[of _ qs], rule exI[of _ m])
      using m \<open>r = strip (clean_phone m)\<close> by simp
  qed
qed

lemma length_save_mono:
  "length (companies_data self) \<le> length (companies_data (snd (save_company_immediately io c self)))"
  by (cases "is_duplicate_company self c") (simp_all add: save_duplicate save_new_memory(1))

lemma length_save_all_mono:
  "length (companies_data self) \<le> length (companies_data (save_all calls self))"
proof (induction calls arbitrary: self)
  case Nil
  then show ?case by simp
next
  case (Cons j calls)
  obtain io c where j: "j = (io, c)" by (cases j)
  show ?case
    using Cons.IH[of "snd (save_company_immediately io c self)"] length_save_mono[of self io c]
    by (simp add: j)
qed

lemma accepted_index_of_call:
  assumes "fst (save_company_immediately io c self)"
  shows "\<not> is_duplicate_company self c"
    and "dict_get (last (companies_data (snd (save_company_immediately io c self)))) ''company_index''
           = PInt (int (Suc (length (companies_data self))))"
    and "length (companies_data (snd (save_company_immediately io c self)))
           = Suc (length (companies_data self))"
proof -
  show nd: "\<not> is_duplicate_company self c"
    using assms by (auto simp: save_duplicate)
  show "dict_get (last (companies_data (snd (save_company_immediately io c self)))) ''company_index''
           = PInt (int (Suc (length (companies_data self))))"
    by (simp add: save_new_memory(1)[OF nd] with_index_def dict_get_dict_set add.commute)
  show "length (companies_data (snd (save_company_immediately io c self)))
           = Suc (length (companies_data self))"
    by (simp add: save_new_memory(1)[OF nd])
qed

lemma accepted_indices_increasing:
  "\<exists>ks. accepted_indices calls self = map (\<lambda>k. PInt (int k)) ks \<and> sorted_wrt (<) ks
        \<and> set ks \<subseteq> {Suc (length (companies_data self))
                       .. length (companies_data (save_all calls self))}"
proof (induction calls arbitrary: self)
  case Nil
  then show ?case by simp
next
  case (Cons j calls)
  obtain io c where j: "j = (io, c)" by (cases j)
  let ?s = "snd (save_company_immediately io c self)"
  from Cons.IH[of ?s] obtain ks where
    ks: "accepted_indices calls ?s = map (\<lambda>k. PInt (int k)) ks" "sorted_wrt (<) ks"
        "set ks \<subseteq> {Suc (length (companies_data ?s)) .. length (companies_data (save_all calls ?s))}"
    by blast
  show ?case
  proof (cases "fst (save_company_immediately io c self)")
    case True
    note a = accepted_index_of_call[OF True]
    let ?k = "Suc (length (companies_data self))"
    have "accepted_indices (j # calls) self = map (\<lambda>k. PInt (int k)) (?k # ks)"
      using True a(2) ks(1) by (simp add: j)
    moreover have "sorted_wrt (<) (?k # ks)"
      using ks(2) ks(3) a(3) by auto
    moreover have "set (?k # ks) \<subseteq> {?k .. length (companies_data (save_all (j # calls) self))}"
      using ks(3) a(3) length_save_all_mono[of ?s calls] by (auto simp: j)
    ultimately show ?thesis by blast
  next
    case False
    have "accepted_indices (j # calls) self = map (\<lambda>k. PInt (int k)) ks"
      using False ks(1) by (simp add: j)
    moreover have "set ks \<subseteq> {Suc (length (companies_data self))
                       .. length (companies_data (save_all (j # calls) self))}"
      using ks(3) length_save_mono[of self io c] by (auto simp: j)
    ultimately show ?thesis using ks(2) by blast
  qed
qed

lemma accepted_indices_dense:
  "no_failed_write calls self \<Longrightarrow>
     accepted_indices calls self
       = map (\<lambda>i. PInt (int i))
           [Suc (length (companies_data self)) ..< Suc (length (companies_data (save_all calls self)))]"
proof (induction calls arbitrary: self)
  case Nil
  then show ?case by simp
next
  case (Cons j calls)
  obtain io c where j: "j = (io, c)" by (cases j)
  let ?s = "snd (save_company_immediately io c self)"
  from Cons.prems have n: "no_failed_write calls ?s"
    and d: "is_duplicate_company self c \<or> fst (save_company_immediately io c self)"
    by (simp_all add: j)
  note ih = Cons.IH[OF n]
  show ?case
  proof (cases "fst (save_company_immediately io c self)")
    case True
    note a = accepted_index_of_call[OF True]
    have "Suc (length (companies_data self)) \<le> length (companies_data (save_all calls ?s))"
      using length_save_all_mono[of ?s calls] a(3) by simp
    then have "[Suc (length (companies_data self)) ..< Suc (length (companies_data (save_all calls ?s)))]
           = Suc (length (companies_data self))
             # [Suc (length (companies_data ?s)) ..< Suc (length (companies_data (save_all calls ?s)))]"
      by (simp add: a(3) upt_conv_Cons)
    then show ?thesis using True a(2) ih by (simp add: j)
  next
    case False
    with d have "is_duplicate_company self c" by simp
    then have "save_company_immediately io c self = (False, self)" by (rule save_duplicate)
    then show ?thesis using ih by (simp add: j)
  qed
qed


lemma key_carl: "generate_company_key carl = ''name:carl gmbh|website:https://carl.example|source:https://fair.example/list''"
  by code_simp

lemma csv_row_carl_ok: "\<not> isl (csv_row (dict_set carl ''company_index'' (PInt 3)))"
  by code_simp

lemma csv_row_bolt_ok: "\<not> isl (csv_row (dict_set bolt ''company_index'' (PInt 2)))"
  by (simp add: csv_row_bolt)

lemma example_objects_distinct:
  "distinct (map (obj_id \<circ> snd) [(NoFault, acme), (CsvOpenFails, acme_again), (NoFault, bolt)])"
  by (simp add: acme_def acme_again_def bolt_def)

lemma startswith_append: "startswith s p \<Longrightarrow> \<exists>r. s = p @ r"
  by (induction s p rule: startswith.induct) auto

lemma scheme_urlparse: "scheme (urlparse url s) = scheme (urlsplit url s)"
  by (simp add: urlparse_def Let_def)

lemma lower_http: "lower ''http'' = ''http''" "lower ''https'' = ''https''"
  by code_simp+

lemma scheme_http: "scheme (urlsplit (''http://'' @ r) s) = ''http''"
  by (simp add: urlsplit_def Let_def c0_control_or_space_def unsafe_url_byte_def ascii_alpha_def
        scheme_chars_def lower_http)

lemma scheme_https: "scheme (urlsplit (''https://'' @ r) s) = ''https''"
  by (simp add: urlsplit_def Let_def c0_control_or_space_def unsafe_url_byte_def ascii_alpha_def
        scheme_chars_def lower_http)

lemma scheme_less_not_http:
  assumes "scheme_less url"
  shows "\<not> http_prefixed url"
proof
  assume "http_prefixed url"
  then consider "startswith url ''http://''" | "startswith url ''https://''"
    by (auto simp: http_prefixed_def)
  then have "scheme (urlsplit url []) \<noteq> []"
  proof cases
    case 1
    then obtain r where "url = ''http://'' @ r" using startswith_append by blast
    then show ?thesis by (simp only: scheme_http) simp
  next
    case 2
    then obtain r where "url = ''https://'' @ r" using startswith_append by blast
    then show ?thesis by (simp only: scheme_https) simp
  qed
  with assms show False by (simp add: scheme_less_def scheme_urlparse)
qed

lemma examples_latin1: "well_typed eclair_a \<and> well_typed eclair_b \<and> same_identity eclair_a eclair_b"
  by code_simp

lemma nbsp_phone:
  "\<not> rejected (\<lambda>t. Some (''+49'' @ [CHR 0xA0] @ ''30'' @ [CHR 0xA0] @ ''123'' @ [CHR 0xA0])) ''Tel''"
  "extract_phone_from_text [\<lambda>t. Some (''+49'' @ [CHR 0xA0] @ ''30'' @ [CHR 0xA0] @ ''123'' @ [CHR 0xA0])] ''Tel''
     = Some (''+49'' @ [CHR 0xA0] @ ''30'' @ [CHR 0xA0] @ ''123'')"
  by code_simp+

lemma example_obj_ids: "obj_id acme = 1" "obj_id bolt = 3"
  by (simp_all add: acme_def bolt_def)

section \<open>The claims\<close>

subsection \<open>C1: composite dedup key\<close>

text \<open>
  Claim C1, as amended. For two records \<open>a\<close> and \<open>b\<close> whose identity fields are optional
  strings, trimmed by \<^verbatim>\<open>str.strip\<close> and case-folded by \<^verbatim>\<open>str.lower\<close>: if the trimmed,
  case-folded \<^verbatim>\<open>name\<close>, \<^verbatim>\<open>website_url\<close> and
  \<^verbatim>\<open>source_url\<close> of \<open>a\<close> and \<open>b\<close> are equal, then after \<open>a\<close> has been submitted to
  \<^verbatim>\<open>_save_company_immediately\<close> (whatever the file system does)
  \<^verbatim>\<open>_is_duplicate_company\<close> is true for \<open>b\<close>. If one of the three differs, none of
  the six fields contains the separator \<^verbatim>\<open>|\<close>, and \<open>b\<close> was not a duplicate before,
  then \<^verbatim>\<open>_is_duplicate_company\<close> is false for \<open>b\<close>, also when the
  \<^verbatim>\<open>source_url\<close> is shared.
\<close>

theorem composite_dedup_key:
  assumes "well_typed a" and "well_typed b"
  shows "(same_identity a b \<longrightarrow>
            is_duplicate_company (snd (save_company_immediately io a self)) b)
       \<and> (\<not> same_identity a b \<and> no_pipe a \<and> no_pipe b \<and> \<not> is_duplicate_company self b \<longrightarrow>
            \<not> is_duplicate_company (snd (save_company_immediately io a self)) b)"
proof (intro conjI impI)
  assume "same_identity a b"
  then have "generate_company_key b = generate_company_key a"
    using assms by (simp add: key_well_typed same_identity_def)
  then show "is_duplicate_company (snd (save_company_immediately io a self)) b"
    by (simp add: is_duplicate_after_save)
next
  assume h: "\<not> same_identity a b \<and> no_pipe a \<and> no_pipe b \<and> \<not> is_duplicate_company self b"
  have "generate_company_key b \<noteq> generate_company_key a"
  proof
    assume "generate_company_key b = generate_company_key a"
    then have "composite_key (norm_field (dict_get b ''name''))
                 (norm_field (dict_get b ''website_url'')) (norm_field (dict_get b ''source_url''))
               = composite_key (norm_field (dict_get a ''name''))
                 (norm_field (dict_get a ''website_url'')) (norm_field (dict_get a ''source_url''))"
      using assms by (simp add: key_well_typed)
    from composite_key_inj[OF _ _ _ _ _ _ this] h have "same_identity a b"
      by (simp add: no_pipe_def same_identity_def)
    with h show False by simp
  qed
  with h show "\<not> is_duplicate_company (snd (save_company_immediately io a self)) b"
    by (simp add: is_duplicate_after_save)
qed

text \<open>
  The amended claim at the two sightings of one exhibitor, at a second exhibitor that
  shares the listing URL, and at two sightings whose names differ in an accented capital
  letter and a trailing no-break space.
\<close>

theorem composite_dedup_key_witness:
  "well_typed acme \<and> well_typed acme_again \<and> same_identity acme acme_again
   \<and> is_duplicate_company (snd (save_company_immediately NoFault acme empty_store)) acme_again
   \<and> well_typed bolt \<and> \<not> same_identity acme bolt \<and> no_pipe acme \<and> no_pipe bolt
   \<and> \<not> is_duplicate_company empty_store bolt
   \<and> \<not> is_duplicate_company (snd (save_company_immediately NoFault acme empty_store)) bolt
   \<and> well_typed eclair_a \<and> well_typed eclair_b \<and> same_identity eclair_a eclair_b
   \<and> is_duplicate_company (snd (save_company_immediately NoFault eclair_a empty_store)) eclair_b"
  using composite_dedup_key[of acme acme_again NoFault empty_store]
        composite_dedup_key[of acme bolt NoFault empty_store]
        composite_dedup_key[of eclair_a eclair_b NoFault empty_store]
        examples_well_typed examples_identity examples_latin1 empty_store_no_duplicate[of bolt]
  by simp

text \<open>
  Claim C1 as stated fails: the key is a plain join, so a field that contains the
  separator and a label collides with another split of the same text. The two records
  differ in \<^verbatim>\<open>name\<close> and in \<^verbatim>\<open>website_url\<close>, all three fields are non-empty, and the
  second is reported as a duplicate of the first.
\<close>

theorem composite_dedup_key_counterexample:
  "well_typed pipe_a \<and> well_typed pipe_b
   \<and> norm_field (dict_get pipe_a ''name'') = ''a|website:b''
   \<and> norm_field (dict_get pipe_b ''name'') = ''a''
   \<and> norm_field (dict_get pipe_a ''website_url'') = ''c''
   \<and> norm_field (dict_get pipe_b ''website_url'') = ''b|website:c''
   \<and> norm_field (dict_get pipe_a ''source_url'') = ''https://x/1''
   \<and> norm_field (dict_get pipe_b ''source_url'') = ''https://x/1''
   \<and> \<not> is_duplicate_company empty_store pipe_b
   \<and> is_duplicate_company (snd (save_company_immediately NoFault pipe_a empty_store)) pipe_b"
proof -
  have n: "norm_field (dict_get pipe_a ''name'') = ''a|website:b''
   \<and> norm_field (dict_get pipe_b ''name'') = ''a''
   \<and> norm_field (dict_get pipe_a ''website_url'') = ''c''
   \<and> norm_field (dict_get pipe_b ''website_url'') = ''b|website:c''
   \<and> norm_field (dict_get pipe_a ''source_url'') = ''https://x/1''
   \<and> norm_field (dict_get pipe_b ''source_url'') = ''https://x/1''" by code_simp
  have "is_duplicate_company (snd (save_company_immediately NoFault pipe_a empty_store)) pipe_b"
    by (simp add: is_duplicate_after_save key_pipe_a key_pipe_b)
  with n examples_well_typed empty_store_no_duplicate[of pipe_b] show ?thesis by simp
qed

subsection \<open>C2: idempotent resume\<close>

text \<open>
  Claim C2. A listing \<open>rs\<close> of records whose identity fields are optional strings is
  saved into a session started without files, with no file-system fault. A new session
  is then built from the document file alone (the columnar file \<open>cf'\<close> it finds is
  arbitrary and never read). In the new session every record of the listing, as a new
  object, is refused without any change of state, whatever the file system does; the
  whole listing submitted again leaves the session as it was; and the records of the
  new session are the records of the single run.
\<close>

theorem idempotent_resume:
  assumes "list_all well_typed rs"
  shows "(\<forall>r\<in>set rs. \<forall>io k.
            save_company_immediately io (r\<lparr>obj_id := k\<rparr>)
              (new_scraper fresh_id'
                 (json_file (save_all (map (Pair NoFault) rs) (new_scraper fresh_id JMissing cf))) cf')
            = (False, new_scraper fresh_id'
                 (json_file (save_all (map (Pair NoFault) rs) (new_scraper fresh_id JMissing cf))) cf'))
     \<and> save_all (zip ios rs)
          (new_scraper fresh_id'
             (json_file (save_all (map (Pair NoFault) rs) (new_scraper fresh_id JMissing cf))) cf')
         = new_scraper fresh_id'
             (json_file (save_all (map (Pair NoFault) rs) (new_scraper fresh_id JMissing cf))) cf'
     \<and> map items (companies_data (new_scraper fresh_id'
             (json_file (save_all (map (Pair NoFault) rs) (new_scraper fresh_id JMissing cf))) cf'))
         = map items (companies_data
             (save_all (map (Pair NoFault) rs) (new_scraper fresh_id JMissing cf)))"
proof -
  let ?s1 = "save_all (map (Pair NoFault) rs) (new_scraper fresh_id JMissing cf)"
  let ?s2 = "new_scraper fresh_id' (json_file ?s1) cf'"
  have "in_sync (new_scraper fresh_id JMissing cf)"
    by (simp add: new_scraper_missing in_sync_def)
  then have s1: "in_sync ?s1" using assms by (rule in_sync_save_all)
  have p: "processed_companies ?s2 = processed_companies ?s1"
    and d: "map items (companies_data ?s2) = map items (companies_data ?s1)"
    using reload_in_sync[OF s1] by simp_all
  have dup: "is_duplicate_company ?s2 (r\<lparr>obj_id := k\<rparr>)" if "r \<in> set rs" for r k
  proof -
    from that assms have wt: "well_typed r" by (simp add: list_all_iff)
    have "generate_company_key (r\<lparr>obj_id := k\<rparr>) = generate_company_key r"
      by (rule key_items[OF wt]) simp
    moreover have "generate_company_key r \<in> processed_companies ?s1"
      using keys_processed_save_all[of r "map (Pair NoFault) rs"] that by (simp add: comp_def)
    ultimately show ?thesis by (simp add: is_duplicate_company_def p)
  qed
  have a: "\<forall>r\<in>set rs. \<forall>io k. save_company_immediately io (r\<lparr>obj_id := k\<rparr>) ?s2 = (False, ?s2)"
    using dup by (simp add: save_duplicate)
  have "list_all (\<lambda>(io, c). is_duplicate_company ?s2 c) (zip ios rs)"
    unfolding list_all_iff
  proof (intro ballI)
    fix j assume "j \<in> set (zip ios rs)"
    then have "(fst j, snd j) \<in> set (zip ios rs)" by simp
    then have "snd j \<in> set rs" by (rule set_zip_rightD)
    from dup[OF this, of "obj_id (snd j)"]
    show "case j of (io, c) \<Rightarrow> is_duplicate_company ?s2 c"
      by (simp add: case_prod_beta)
  qed
  then have b: "save_all (zip ios rs) ?s2 = ?s2" by (rule save_all_duplicates)
  from a b d show ?thesis by blast
qed

text \<open>
  The claim at a listing of three candidates, one of them a repeated sighting.
\<close>

theorem idempotent_resume_witness:
  "list_all well_typed [acme, acme_again, bolt]
   \<and> save_company_immediately CsvWriteFails (bolt\<lparr>obj_id := 99\<rparr>)
        (new_scraper (\<lambda>i. i + 10)
           (json_file (save_all (map (Pair NoFault) [acme, acme_again, bolt])
                         (new_scraper (\<lambda>i. i) JMissing None))) None)
       = (False, new_scraper (\<lambda>i. i + 10)
           (json_file (save_all (map (Pair NoFault) [acme, acme_again, bolt])
                         (new_scraper (\<lambda>i. i) JMissing None))) None)
   \<and> save_all (zip [NoFault, NoFault, NoFault] [acme, acme_again, bolt])
        (new_scraper (\<lambda>i. i + 10)
           (json_file (save_all (map (Pair NoFault) [acme, acme_again, bolt])
                         (new_scraper (\<lambda>i. i) JMissing None))) None)
       = new_scraper (\<lambda>i. i + 10)
           (json_file (save_all (map (Pair NoFault) [acme, acme_again, bolt])
                         (new_scraper (\<lambda>i. i) JMissing None))) None
   \<and> map items (companies_data (new_scraper (\<lambda>i. i + 10)
           (json_file (save_all (map (Pair NoFault) [acme, acme_again, bolt])
                         (new_scraper (\<lambda>i. i) JMissing None))) None))
       = map items (companies_data (save_all (map (Pair NoFault) [acme, acme_again, bolt])
                         (new_scraper (\<lambda>i. i) JMissing None)))"
proof -
  have wt: "list_all well_typed [acme, acme_again, bolt]" using examples_well_typed by simp
  from idempotent_resume[OF wt, of "\<lambda>i. i + 10" "\<lambda>i. i" None None "[NoFault, NoFault, NoFault]"] wt
  show ?thesis by simp
qed

subsection \<open>C3: sequential dense indices\<close>

text \<open>
  Claim C3, as amended. After any sequence of calls of \<^verbatim>\<open>_save_company_immediately\<close>
  with pairwise distinct dictionary objects, from an empty store and whatever the file
  system does at each call, the \<^verbatim>\<open>company_index\<close> values of the records in
  \<^verbatim>\<open>companies_data\<close> are \<open>1, ..., N\<close> in the order of the list: these are the submitted
  records that were not duplicates, a record whose write failed and whose call returned
  \<^verbatim>\<open>False\<close> among them. A duplicate \<open>d\<close> is refused with the state unchanged, so the
  record \<open>r\<close>, a new object that passes the duplicate check next, receives the index
  the duplicate would have taken. The records whose call returned \<^verbatim>\<open>True\<close> carry strictly increasing
  indices between \<open>1\<close> and \<open>N\<close>, and these are \<open>1, ..., N\<close> when no call fails after the
  duplicate check.
\<close>

theorem sequential_dense_indices:
  assumes "distinct (map (obj_id \<circ> snd) calls)"
  shows "map (\<lambda>c. dict_get c ''company_index'')
       (companies_data (save_all calls (new_scraper fresh_id JMissing cf)))
     = map (\<lambda>i. PInt (int i))
         [1..<Suc (length (companies_data (save_all calls (new_scraper fresh_id JMissing cf))))]
   \<and> (is_duplicate_company self d \<and> \<not> is_duplicate_company self r
        \<and> obj_id r \<notin> obj_id ` set (companies_data self) \<longrightarrow>
        save_company_immediately io d self = (False, self)
        \<and> companies_data (save_all [(io, d), (io', r)] self)
            = companies_data self
              @ [dict_set r ''company_index'' (PInt (int (length (companies_data self)) + 1))])
   \<and> (\<exists>ks. accepted_indices calls (new_scraper fresh_id JMissing cf) = map (\<lambda>k. PInt (int k)) ks
          \<and> sorted_wrt (<) ks
          \<and> set ks \<subseteq> {1 .. length (companies_data
                                      (save_all calls (new_scraper fresh_id JMissing cf)))})
   \<and> (no_failed_write calls (new_scraper fresh_id JMissing cf) \<longrightarrow>
        accepted_indices calls (new_scraper fresh_id JMissing cf)
          = map (\<lambda>i. PInt (int i))
              [1..<Suc (length (companies_data
                                  (save_all calls (new_scraper fresh_id JMissing cf))))])"
proof (intro conjI impI)
  have "dense_indices (new_scraper fresh_id JMissing cf)"
    by (simp add: new_scraper_missing dense_indices_def)
  from dense_indices_save_all[OF this, of calls]
  show "map (\<lambda>c. dict_get c ''company_index'')
       (companies_data (save_all calls (new_scraper fresh_id JMissing cf)))
     = map (\<lambda>i. PInt (int i))
         [1..<Suc (length (companies_data (save_all calls (new_scraper fresh_id JMissing cf))))]"
    by (simp add: dense_indices_def)
next
  assume a: "is_duplicate_company self d \<and> \<not> is_duplicate_company self r
        \<and> obj_id r \<notin> obj_id ` set (companies_data self)"
  then show "save_company_immediately io d self = (False, self)"
    by (simp add: save_duplicate)
  from a show "companies_data (save_all [(io, d), (io', r)] self)
            = companies_data self
              @ [dict_set r ''company_index'' (PInt (int (length (companies_data self)) + 1))]"
    by (simp add: save_duplicate save_new_memory(1) with_index_def)
next
  have e: "companies_data (new_scraper fresh_id JMissing cf) = []"
    by (simp add: new_scraper_missing)
  from accepted_indices_increasing[of calls "new_scraper fresh_id JMissing cf"]
  show "\<exists>ks. accepted_indices calls (new_scraper fresh_id JMissing cf) = map (\<lambda>k. PInt (int k)) ks
          \<and> sorted_wrt (<) ks
          \<and> set ks \<subseteq> {1 .. length (companies_data
                                      (save_all calls (new_scraper fresh_id JMissing cf)))}"
    by (simp add: e)
next
  assume "no_failed_write calls (new_scraper fresh_id JMissing cf)"
  from accepted_indices_dense[OF this]
  show "accepted_indices calls (new_scraper fresh_id JMissing cf)
          = map (\<lambda>i. PInt (int i))
              [1..<Suc (length (companies_data
                                  (save_all calls (new_scraper fresh_id JMissing cf))))]"
    by (simp add: new_scraper_missing)
qed

text \<open>
  The amended claim at a run where the second candidate is a duplicate and no write
  fails: the third candidate gets index 2, and the accepted records carry 1 and 2.
\<close>

theorem sequential_dense_indices_witness:
  "distinct (map (obj_id \<circ> snd) [(NoFault, acme), (CsvOpenFails, acme_again), (NoFault, bolt)])
   \<and> map (\<lambda>c. dict_get c ''company_index'')
     (companies_data (save_all [(NoFault, acme), (CsvOpenFails, acme_again), (NoFault, bolt)]
                        (new_scraper (\<lambda>i. i) JMissing None)))
     = [PInt 1, PInt 2]
   \<and> is_duplicate_company (snd (save_company_immediately NoFault acme empty_store)) acme_again
   \<and> \<not> is_duplicate_company (snd (save_company_immediately NoFault acme empty_store)) bolt
   \<and> obj_id bolt
        \<notin> obj_id ` set (companies_data (snd (save_company_immediately NoFault acme empty_store)))
   \<and> save_company_immediately CsvOpenFails acme_again
        (snd (save_company_immediately NoFault acme empty_store))
       = (False, snd (save_company_immediately NoFault acme empty_store))
   \<and> companies_data (save_all [(CsvOpenFails, acme_again), (NoFault, bolt)]
                       (snd (save_company_immediately NoFault acme empty_store)))
       = [dict_set acme ''company_index'' (PInt 1), dict_set bolt ''company_index'' (PInt 2)]
   \<and> no_failed_write [(NoFault, acme), (CsvOpenFails, acme_again), (NoFault, bolt)]
        (new_scraper (\<lambda>i. i) JMissing None)
   \<and> accepted_indices [(NoFault, acme), (CsvOpenFails, acme_again), (NoFault, bolt)]
        (new_scraper (\<lambda>i. i) JMissing None)
       = [PInt 1, PInt 2]"
proof -
  let ?s1 = "snd (save_company_immediately NoFault acme empty_store)"
  have m: "companies_data ?s1 = [dict_set acme ''company_index'' (PInt 1)]"
    by (simp add: save_new_memory(1)[OF empty_store_no_duplicate] with_index_def empty_store_fields)
  have f1: "fst (save_company_immediately NoFault acme empty_store)"
    by (simp add: save_new_flag[OF empty_store_no_duplicate] csv_row_acme_ok)
  have d2: "is_duplicate_company ?s1 acme_again"
    by (simp add: duplicate_after_acme key_acme key_acme_again)
  have nd3: "\<not> is_duplicate_company ?s1 bolt"
    by (simp add: duplicate_after_acme key_acme key_bolt)
  have f3: "fst (save_company_immediately NoFault bolt ?s1)"
    by (simp add: save_new_flag[OF nd3] with_index_def m csv_row_bolt_ok)
  have l: "length (companies_data (save_all [(NoFault, acme), (CsvOpenFails, acme_again), (NoFault, bolt)]
                        (new_scraper (\<lambda>i. i) JMissing None))) = 2"
    using save_new_memory(1)[OF nd3, of NoFault]
    by (simp add: empty_store_def[symmetric] save_duplicate[OF d2] m)
  have n: "no_failed_write [(NoFault, acme), (CsvOpenFails, acme_again), (NoFault, bolt)]
        (new_scraper (\<lambda>i. i) JMissing None)"
    using f1 d2 f3 by (simp add: empty_store_def[symmetric] save_duplicate[OF d2])
  have u: "map (\<lambda>i. PInt (int i)) [Suc 0..<3] = [PInt 1, PInt 2]" by (simp add: upt_rec)
  have o: "obj_id bolt \<notin> obj_id ` set (companies_data ?s1)"
    by (simp add: m obj_id_dict_set example_obj_ids)
  show ?thesis
    using sequential_dense_indices[where calls = "[(NoFault, acme), (CsvOpenFails, acme_again), (NoFault, bolt)]"
            and fresh_id = "\<lambda>i. i" and cf = None and self = ?s1
            and d = acme_again and r = bolt and io = CsvOpenFails and io' = NoFault,
            OF example_objects_distinct]
          example_objects_distinct n o
    by (simp add: l m u d2 nd3 del: save_all.simps accepted_indices.simps no_failed_write.simps)
qed

text \<open>
  Claim C3 as stated fails: when the document file cannot be opened for the second of
  three candidates, its call returns \<^verbatim>\<open>False\<close> and its index is not given back. The
  two accepted records carry the indices 1 and 3, not 1 and 2; the list in memory holds
  the three records with 1, 2 and 3.
\<close>

theorem failed_write_leaves_index_gap:
  "save_flags [(NoFault, acme), (JsonOpenFails, bolt), (NoFault, carl)] empty_store
     = [True, False, True]
   \<and> accepted_indices [(NoFault, acme), (JsonOpenFails, bolt), (NoFault, carl)] empty_store
     = [PInt 1, PInt 3]
   \<and> accepted_indices [(NoFault, acme), (JsonOpenFails, bolt), (NoFault, carl)] empty_store
     \<noteq> [PInt 1, PInt 2]
   \<and> map (\<lambda>c. dict_get c ''company_index'')
        (companies_data (save_all [(NoFault, acme), (JsonOpenFails, bolt), (NoFault, carl)]
                           empty_store))
     = [PInt 1, PInt 2, PInt 3]"
proof -
  let ?s1 = "snd (save_company_immediately NoFault acme empty_store)"
  let ?s2 = "snd (save_company_immediately JsonOpenFails bolt ?s1)"
  let ?s3 = "snd (save_company_immediately NoFault carl ?s2)"
  have f1: "fst (save_company_immediately NoFault acme empty_store)"
    by (simp add: save_new_flag[OF empty_store_no_duplicate] csv_row_acme_ok)
  have nd2: "\<not> is_duplicate_company ?s1 bolt"
    by (simp add: duplicate_after_acme key_acme key_bolt)
  have f2: "\<not> fst (save_company_immediately JsonOpenFails bolt ?s1)"
    by (simp add: save_new_flag[OF nd2])
  have p2: "processed_companies ?s2 = {generate_company_key bolt, generate_company_key acme}"
    by (simp add: save_new_memory(2)[OF nd2] save_new_memory(2)[OF empty_store_no_duplicate]
          empty_store_fields)
  have nd3: "\<not> is_duplicate_company ?s2 carl"
    by (simp add: is_duplicate_company_def p2 key_acme key_bolt key_carl)
  have l2: "length (companies_data ?s2) = 2"
    by (simp add: save_new_memory(1)[OF nd2] save_new_memory(1)[OF empty_store_no_duplicate]
          empty_store_fields)
  have f3: "fst (save_company_immediately NoFault carl ?s2)"
    by (simp add: save_new_flag[OF nd3] with_index_def l2 csv_row_carl_ok)
  have i1: "dict_get (last (companies_data ?s1)) ''company_index'' = PInt 1"
    using accepted_index_of_call(2)[OF f1] by (simp add: empty_store_fields)
  have i3: "dict_get (last (companies_data ?s3)) ''company_index'' = PInt 3"
    using accepted_index_of_call(2)[OF f3] by (simp add: l2)
  have l3: "length (companies_data ?s3) = 3"
    using accepted_index_of_call(3)[OF f3] by (simp add: l2)
  have "dense_indices empty_store" by (simp add: dense_indices_def empty_store_fields)
  from dense_indices_save_all[OF this, of "[(NoFault, acme), (JsonOpenFails, bolt), (NoFault, carl)]"]
  have m: "map (\<lambda>c. dict_get c ''company_index'') (companies_data ?s3) = [PInt 1, PInt 2, PInt 3]"
    by (simp add: dense_indices_def l3 upt_rec)
  show ?thesis using f1 f2 f3 i1 i3 m by simp
qed

subsection \<open>C4: duplicate rejection is a no-op\<close>

text \<open>
  Claim C4. For a record \<open>r\<close> with \<^verbatim>\<open>_is_duplicate_company(r)\<close> true,
  \<^verbatim>\<open>_save_company_immediately(r)\<close> returns \<^verbatim>\<open>False\<close> and the whole state is
  unchanged: the record list, the key set, the document file and the columnar file.
\<close>

theorem duplicate_rejection_noop:
  "is_duplicate_company self r \<Longrightarrow> save_company_immediately io r self = (False, self)"
  by (simp add: save_company_immediately_def)

text \<open>
  The claim at the repeated sighting of an accepted exhibitor.
\<close>

theorem duplicate_rejection_noop_witness:
  "is_duplicate_company (snd (save_company_immediately NoFault acme empty_store)) acme_again
   \<and> save_company_immediately CsvOpenFails acme_again
        (snd (save_company_immediately NoFault acme empty_store))
       = (False, snd (save_company_immediately NoFault acme empty_store))"
proof -
  have d: "is_duplicate_company (snd (save_company_immediately NoFault acme empty_store)) acme_again"
    by (simp add: duplicate_after_acme key_acme key_acme_again)
  from duplicate_rejection_noop[OF d, of CsvOpenFails] d show ?thesis by simp
qed

subsection \<open>C5: the key of a record without identity\<close>

text \<open>
  Claim C5, as amended. If the \<^verbatim>\<open>name\<close>, \<^verbatim>\<open>website_url\<close> and \<^verbatim>\<open>source_url\<close> of
  a record are all empty after trimming, its dedup key is the empty string, the same for
  every such record: once one of them has been submitted, every other one is treated as
  a duplicate. The run-unique key \<^verbatim>\<open>fallback:<id>\<close> is generated exactly when key
  generation raises, that is when an identity field is a true value that is not a string.
\<close>

theorem all_empty_key_is_shared:
  "(all_empty c \<longrightarrow> generate_company_key c = [])
   \<and> (all_empty a \<and> all_empty b \<longrightarrow>
        is_duplicate_company (snd (save_company_immediately io a self)) b)
   \<and> (generate_company_key c = ''fallback:'' @ str_nat (obj_id c) \<longleftrightarrow> key_raises c)"
proof (intro conjI impI)
  assume "all_empty c" then show "generate_company_key c = []" by (rule key_all_empty)
next
  assume "all_empty a \<and> all_empty b"
  then show "is_duplicate_company (snd (save_company_immediately io a self)) b"
    by (simp add: is_duplicate_after_save key_all_empty)
next
  show "generate_company_key c = ''fallback:'' @ str_nat (obj_id c) \<longleftrightarrow> key_raises c"
    using key_raises_fallback[of c] key_no_raise[of c] composite_key_not_fallback
    by metis
qed

text \<open>
  The amended claim at two records without identity and at a record whose name is a number.
\<close>

theorem all_empty_key_is_shared_witness:
  "all_empty blank_a \<and> all_empty blank_b \<and> generate_company_key blank_a = []
   \<and> is_duplicate_company (snd (save_company_immediately NoFault blank_a empty_store)) blank_b
   \<and> key_raises odd_name
   \<and> generate_company_key odd_name = ''fallback:'' @ str_nat (obj_id odd_name)"
  using all_empty_key_is_shared[of blank_a blank_a blank_b NoFault empty_store]
        all_empty_key_is_shared[of odd_name blank_a blank_b NoFault empty_store] examples_empty_or_raising
  by simp

text \<open>
  Claim C5 as stated fails: two distinct records without identity have the same key, and
  the second is a duplicate of the first.
\<close>

theorem run_unique_fallback_counterexample:
  "all_empty blank_a \<and> all_empty blank_b \<and> blank_a \<noteq> blank_b
   \<and> generate_company_key blank_a = generate_company_key blank_b
   \<and> \<not> is_duplicate_company empty_store blank_b
   \<and> is_duplicate_company (snd (save_company_immediately NoFault blank_a empty_store)) blank_b"
proof -
  have "blank_a \<noteq> blank_b" by (simp add: blank_a_def blank_b_def)
  then show ?thesis
    using examples_empty_or_raising empty_store_no_duplicate[of blank_b] by (simp add: key_all_empty is_duplicate_after_save)
qed

subsection \<open>C6: the URL normalization cascade\<close>

text \<open>
  Claim C6, as amended. \<^verbatim>\<open>normalize_url\<close> maps the empty input to \<^verbatim>\<open>None\<close>; an
  input starting with \<^verbatim>\<open>//\<close> to \<^verbatim>\<open>https:\<close> followed by the input; another input
  starting with \<^verbatim>\<open>/\<close> to its resolution against the base URL; an input without a
  scheme that contains a dot and does not start with a dot to \<^verbatim>\<open>https://\<close> followed
  by the input; an input without a scheme that contains no dot, or starts with one, to
  its resolution against the base URL; and an input starting with \<^verbatim>\<open>http://\<close> or
  \<^verbatim>\<open>https://\<close> to itself. The three examples of the claim hold. Nothing is said of an
  input with another scheme.
\<close>

theorem normalize_url_cascade:
  "normalize_url base_url [] = None
   \<and> (startswith url ''//'' \<longrightarrow> normalize_url base_url url = Some (''https:'' @ url))
   \<and> (startswith url ''/'' \<and> \<not> startswith url ''//'' \<longrightarrow>
        normalize_url base_url url = Some (urljoin base_url url))
   \<and> (url \<noteq> [] \<and> \<not> startswith url ''/'' \<and> scheme_less url
        \<and> CHR ''.'' \<in> set url \<and> \<not> startswith url ''.'' \<longrightarrow>
        normalize_url base_url url = Some (''https://'' @ url))
   \<and> (url \<noteq> [] \<and> \<not> startswith url ''/'' \<and> scheme_less url
        \<and> (CHR ''.'' \<notin> set url \<or> startswith url ''.'') \<longrightarrow>
        normalize_url base_url url = Some (urljoin base_url url))
   \<and> (http_prefixed url \<longrightarrow> normalize_url base_url url = Some url)
   \<and> normalize_url ''https://site.com'' ''//cdn.example.com/a.png''
        = Some ''https://cdn.example.com/a.png''
   \<and> normalize_url ''https://site.com'' ''/about'' = Some ''https://site.com/about''
   \<and> normalize_url base_url ''example.com/x'' = Some ''https://example.com/x''"
proof (intro conjI impI)
  show "normalize_url base_url [] = None" by (simp add: normalize_url_def)
  show "normalize_url ''https://site.com'' ''//cdn.example.com/a.png''
        = Some ''https://cdn.example.com/a.png''" by (rule normalize_protocol_relative_example)
  show "normalize_url ''https://site.com'' ''/about'' = Some ''https://site.com/about''"
    by (rule normalize_root_relative_example)
  show "normalize_url base_url ''example.com/x'' = Some ''https://example.com/x''"
    by (simp add: normalize_url_def)
next
  assume "startswith url ''//''"
  then show "normalize_url base_url url = Some (''https:'' @ url)"
    using startswith_slashes[of url] by (simp add: normalize_url_def)
next
  assume "startswith url ''/'' \<and> \<not> startswith url ''//''"
  then show "normalize_url base_url url = Some (urljoin base_url url)"
    by (cases url) (auto simp: normalize_url_def)
next
  assume a: "url \<noteq> [] \<and> \<not> startswith url ''/'' \<and> scheme_less url
        \<and> CHR ''.'' \<in> set url \<and> \<not> startswith url ''.''"
  then have "\<not> http_prefixed url" by (simp add: scheme_less_not_http)
  with a show "normalize_url base_url url = Some (''https://'' @ url)"
    using startswith_slashes[of url]
    by (auto simp: normalize_url_def http_prefixed_def contains_char)
next
  assume a: "url \<noteq> [] \<and> \<not> startswith url ''/'' \<and> scheme_less url
        \<and> (CHR ''.'' \<notin> set url \<or> startswith url ''.'')"
  then have "\<not> http_prefixed url" by (simp add: scheme_less_not_http)
  with a show "normalize_url base_url url = Some (urljoin base_url url)"
    using startswith_slashes[of url]
    by (auto simp: normalize_url_def http_prefixed_def contains_char)
next
  assume "http_prefixed url"
  then show "normalize_url base_url url = Some url"
    using http_not_slash[of url] by (auto simp: normalize_url_def http_prefixed_def)
qed

text \<open>
  The amended claim at one input of each kind.
\<close>

theorem normalize_url_cascade_witness:
  "startswith ''//cdn.example.com/a.png'' ''//''
   \<and> startswith ''/about'' ''/'' \<and> \<not> startswith ''/about'' ''//''
   \<and> normalize_url ''https://site.com'' ''/about'' = Some (urljoin ''https://site.com'' ''/about'')
   \<and> scheme_less ''example.com/x'' \<and> CHR ''.'' \<in> set ''example.com/x''
   \<and> normalize_url ''https://site.com'' ''example.com/x'' = Some ''https://example.com/x''
   \<and> scheme_less ''../img/logo.png'' \<and> startswith ''../img/logo.png'' ''.''
   \<and> normalize_url ''https://site.com/fair/list'' ''../img/logo.png''
        = Some ''https://site.com/img/logo.png''
   \<and> scheme_less ''contact'' \<and> CHR ''.'' \<notin> set ''contact''
   \<and> normalize_url ''https://site.com/fair/list'' ''contact''
        = Some ''https://site.com/fair/contact''
   \<and> http_prefixed ''http://a.b/c'' \<and> normalize_url ''https://site.com'' ''http://a.b/c'' = Some ''http://a.b/c''"
proof -
  have j: "urljoin ''https://site.com/fair/list'' ''../img/logo.png'' = ''https://site.com/img/logo.png''"
    "urljoin ''https://site.com/fair/list'' ''contact'' = ''https://site.com/fair/contact''"
    by code_simp+
  have s: "scheme_less ''example.com/x''" "scheme_less ''../img/logo.png''" "scheme_less ''contact''"
    by code_simp+
  show ?thesis
    using normalize_url_cascade[of "''https://site.com''" "''/about''"]
      normalize_url_cascade[of "''https://site.com''" "''example.com/x''"]
      normalize_url_cascade[of "''https://site.com/fair/list''" "''../img/logo.png''"]
      normalize_url_cascade[of "''https://site.com/fair/list''" "''contact''"]
      normalize_url_cascade[of "''https://site.com''" "''http://a.b/c''"] j s
    by (simp add: http_prefixed_def)
qed

text \<open>
  Claim C6 as stated fails at two inputs. \<^verbatim>\<open>./a.png\<close> has no scheme and contains a dot
  at position 3, and it is resolved against the base URL, not prefixed with
  \<^verbatim>\<open>https://\<close>: the code tests for a leading dot. \<^verbatim>\<open>ftp://files.example.com/a\<close> is
  absolute, with the scheme \<^verbatim>\<open>ftp\<close> and a network location, and it is not returned
  unchanged: the code takes every input that does not start with \<^verbatim>\<open>http://\<close> or
  \<^verbatim>\<open>https://\<close> for one without a protocol.
\<close>

theorem normalize_url_cascade_counterexample:
  "scheme_less ''./a.png'' \<and> ''./a.png'' ! 3 = CHR ''.''
   \<and> normalize_url ''https://site.com'' ''./a.png'' = Some ''https://site.com/a.png''
   \<and> normalize_url ''https://site.com'' ''./a.png'' \<noteq> Some (''https://'' @ ''./a.png'')
   \<and> scheme (urlparse ''ftp://files.example.com/a'' []) = ''ftp''
   \<and> netloc (urlparse ''ftp://files.example.com/a'' []) = ''files.example.com''
   \<and> normalize_url ''https://site.com'' ''ftp://files.example.com/a''
        = Some ''https://ftp://files.example.com/a''
   \<and> normalize_url ''https://site.com'' ''ftp://files.example.com/a''
        \<noteq> Some ''ftp://files.example.com/a''"
proof -
  have p: "scheme_less ''./a.png''"
    "scheme (urlparse ''ftp://files.example.com/a'' []) = ''ftp''"
    "netloc (urlparse ''ftp://files.example.com/a'' []) = ''files.example.com''"
    by code_simp+
  have f: "normalize_url ''https://site.com'' ''ftp://files.example.com/a''
        = Some ''https://ftp://files.example.com/a''"
    by (simp add: normalize_url_def contains_char)
  show ?thesis by (simp add: p f normalize_leading_dot_example)
qed

subsection \<open>C7: minimum length of an extracted phone number\<close>

text \<open>
  Claim C7. \<^verbatim>\<open>extract_phone_from_text\<close> goes through the patterns in order. On a
  non-empty text a pattern that does not match, or whose match cleans to fewer than ten
  characters, is passed over. The result is \<^verbatim>\<open>None\<close> exactly when the text is empty
  or every pattern is passed over. Otherwise the result comes from the first pattern
  that is not passed over: it is the match of that pattern, cleaned and then trimmed, and
  it consists of digits, \<^verbatim>\<open>+\<close>, \<^verbatim>\<open>-\<close>, whitespace and parentheses only. Whitespace
  is what \<^verbatim>\<open>\s\<close> matches, the no-break space included.
\<close>

theorem extract_phone_min_length:
  "(text \<noteq> [] \<and> rejected p text \<longrightarrow>
      extract_phone_from_text (p # ps) text = extract_phone_from_text ps text)
   \<and> (extract_phone_from_text pats text = None
        \<longleftrightarrow> text = [] \<or> list_all (\<lambda>q. rejected q text) pats)
   \<and> (extract_phone_from_text pats text = Some r \<longrightarrow>
        (\<exists>ps1 q ps2 m. pats = ps1 @ q # ps2 \<and> list_all (\<lambda>q. rejected q text) ps1
           \<and> q text = Some m \<and> 10 \<le> length (clean_phone m) \<and> r = strip (clean_phone m))
        \<and> list_all phone_char r)"
proof (intro conjI impI)
  assume "text \<noteq> [] \<and> rejected p text"
  then show "extract_phone_from_text (p # ps) text = extract_phone_from_text ps text"
    by (simp add: extract_phone_from_text_def phone_loop_rejected del: phone_loop.simps)
next
  show "extract_phone_from_text pats text = None
        \<longleftrightarrow> text = [] \<or> list_all (\<lambda>q. rejected q text) pats"
    by (simp add: extract_phone_from_text_def phone_loop_None)
next
  assume a: "extract_phone_from_text pats text = Some r"
  then have l: "phone_loop pats text = Some r"
    by (simp add: extract_phone_from_text_def split: if_splits)
  from phone_loop_Some[OF l]
  show "\<exists>ps1 q ps2 m. pats = ps1 @ q # ps2 \<and> list_all (\<lambda>q. rejected q text) ps1
           \<and> q text = Some m \<and> 10 \<le> length (clean_phone m) \<and> r = strip (clean_phone m)" .
  then show "list_all phone_char r" using strip_clean_chars by blast
qed

text \<open>
  The claim at a text where the first pattern finds too short a number, and at a match
  whose groups are separated by no-break spaces.
\<close>

theorem extract_phone_min_length_witness:
  "''call us'' \<noteq> [] \<and> rejected (\<lambda>t. Some ''12-34 x'') ''call us''
   \<and> extract_phone_from_text
        [\<lambda>t. Some ''12-34 x'', \<lambda>t. None, \<lambda>t. Some ''+1 (555) 123-4567 ext'']
        ''call us''
      = extract_phone_from_text [\<lambda>t. None, \<lambda>t. Some ''+1 (555) 123-4567 ext''] ''call us''
   \<and> extract_phone_from_text
        [\<lambda>t. Some ''12-34 x'', \<lambda>t. None, \<lambda>t. Some ''+1 (555) 123-4567 ext'']
        ''call us''
      = Some ''+1 (555) 123-4567''
   \<and> list_all phone_char ''+1 (555) 123-4567''
   \<and> extract_phone_from_text [\<lambda>t. Some ''12-34 x'', \<lambda>t. None] ''call us'' = None
   \<and> \<not> rejected (\<lambda>t. Some (''+49'' @ [CHR 0xA0] @ ''30'' @ [CHR 0xA0] @ ''123'' @ [CHR 0xA0]))
          ''Tel''
   \<and> extract_phone_from_text
        [\<lambda>t. Some (''+49'' @ [CHR 0xA0] @ ''30'' @ [CHR 0xA0] @ ''123'' @ [CHR 0xA0])] ''Tel''
      = Some (''+49'' @ [CHR 0xA0] @ ''30'' @ [CHR 0xA0] @ ''123'')
   \<and> list_all phone_char (''+49'' @ [CHR 0xA0] @ ''30'' @ [CHR 0xA0] @ ''123'')"
proof -
  have r: "rejected (\<lambda>t. Some ''12-34 x'') ''call us''" by code_simp
  have v: "extract_phone_from_text
        [\<lambda>t. Some ''12-34 x'', \<lambda>t. None, \<lambda>t. Some ''+1 (555) 123-4567 ext'']
        ''call us'' = Some ''+1 (555) 123-4567''" by code_simp
  have n: "extract_phone_from_text [\<lambda>t. Some ''12-34 x'', \<lambda>t. None] ''call us'' = None"
    by code_simp
  show ?thesis
    using extract_phone_min_length[of "''call us''" "\<lambda>t. Some ''12-34 x''"
            "[\<lambda>t. None, \<lambda>t. Some ''+1 (555) 123-4567 ext'']"
            "[\<lambda>t. Some ''12-34 x'', \<lambda>t. None, \<lambda>t. Some ''+1 (555) 123-4567 ext'']"
            "''+1 (555) 123-4567''"]
          extract_phone_min_length[of "''Tel''" "\<lambda>t. None" "[]"
            "[\<lambda>t. Some (''+49'' @ [CHR 0xA0] @ ''30'' @ [CHR 0xA0] @ ''123'' @ [CHR 0xA0])]"
            "''+49'' @ [CHR 0xA0] @ ''30'' @ [CHR 0xA0] @ ''123''"]
          r v n nbsp_phone
    by simp
qed

subsection \<open>C8: social categorization\<close>

text \<open>
  Claim C8. \<^verbatim>\<open>_categorize_social_media\<close> files every non-empty URL under the first
  of the families facebook, instagram, linkedin, twitter whose test it passes. Each of
  the four slots holds the first URL of the list filed under its platform (later ones
  are dropped, the slot is empty when there is none), and \<^verbatim>\<open>other_socials\<close> is the
  join, in the order of the list, of the URLs that pass none of the four tests. The
  input of the claim gives the result of the claim.
\<close>

theorem social_categorization:
  "facebook (categorize_social_media (Some urls)) = first_url Facebook urls
   \<and> instagram (categorize_social_media (Some urls)) = first_url Instagram urls
   \<and> linkedin (categorize_social_media (Some urls)) = first_url Linkedin urls
   \<and> twitter (categorize_social_media (Some urls)) = first_url Twitter urls
   \<and> other_socials (categorize_social_media (Some urls))
       = join '' | '' (filter (\<lambda>u. u \<noteq> [] \<and> platform_of u = Other) urls)
   \<and> categorize_social_media
        (Some [''https://facebook.com/a'', ''https://instagram.com/b'',
               ''https://facebook.com/c'', ''https://foo.bar/d''])
       = \<lparr>facebook = ''https://facebook.com/a'', instagram = ''https://instagram.com/b'',
          linkedin = [], twitter = [], other_socials = ''https://foo.bar/d''\<rparr>"
proof -
  have "facebook (categorize_social_media (Some urls)) = first_url Facebook urls
   \<and> instagram (categorize_social_media (Some urls)) = first_url Instagram urls
   \<and> linkedin (categorize_social_media (Some urls)) = first_url Linkedin urls
   \<and> twitter (categorize_social_media (Some urls)) = first_url Twitter urls
   \<and> other_socials (categorize_social_media (Some urls))
       = join '' | '' (filter (\<lambda>u. u \<noteq> [] \<and> platform_of u = Other) urls)"
    by (cases "urls = []")
       (simp_all add: categorize_social_media_def categorize_loop_result slot_def first_url_def
          Let_def)
  with categorize_example show ?thesis by simp
qed

text \<open>
  The claim at the input of the specification.
\<close>

theorem social_categorization_witness:
  "first_url Facebook [''https://fb.me/x'', ''https://facebook.com/a'', ''https://pinterest.com/p'']
     = ''https://fb.me/x''
   \<and> facebook (categorize_social_media
        (Some [''https://fb.me/x'', ''https://facebook.com/a'', ''https://pinterest.com/p'']))
     = ''https://fb.me/x''
   \<and> platform_of ''https://pinterest.com/p'' = Twitter
   \<and> twitter (categorize_social_media
        (Some [''https://fb.me/x'', ''https://facebook.com/a'', ''https://pinterest.com/p'']))
     = ''https://pinterest.com/p''"
proof -
  have f: "first_url Facebook [''https://fb.me/x'', ''https://facebook.com/a'', ''https://pinterest.com/p'']
     = ''https://fb.me/x''" by code_simp
  have p: "platform_of ''https://pinterest.com/p'' = Twitter" by code_simp
  have t: "first_url Twitter [''https://fb.me/x'', ''https://facebook.com/a'', ''https://pinterest.com/p'']
     = ''https://pinterest.com/p''" by code_simp
  show ?thesis
    using social_categorization[of "[''https://fb.me/x'', ''https://facebook.com/a'', ''https://pinterest.com/p'']"]
      f p t by simp
qed

subsection \<open>C9: output file names\<close>

text \<open>
  Claim C9 says that only a leading \<^verbatim>\<open>www.\<close> is stripped from the domain. The code
  calls \<^verbatim>\<open>replace("www.", "")\<close>, which removes every occurrence: for the base URL
  \<^verbatim>\<open>https://awww.example.com\<close> the network location is \<^verbatim>\<open>awww.example.com\<close>, and
  the file names are built from \<^verbatim>\<open>aexample_com\<close>, not from \<^verbatim>\<open>awww_example_com\<close>.
  For a leading \<^verbatim>\<open>www.\<close> the names are as the claim says.
\<close>

theorem output_filename_inner_www:
  "netloc (urlparse ''https://awww.example.com'' []) = ''awww.example.com''
   \<and> csv_filename ''https://awww.example.com'' = ''aexample_com_companies.csv''
   \<and> json_filename ''https://awww.example.com'' = ''aexample_com_companies.json''
   \<and> csv_filename ''https://www.example.com/list'' = ''example_com_companies.csv''
   \<and> json_filename ''https://www.example.com/list'' = ''example_com_companies.json''"
  by code_simp

subsection \<open>C10: a persistence failure is not rolled back\<close>

text \<open>
  Claim C10. A record \<open>r\<close> that is not a duplicate is submitted and the write fails: the
  file system raises, or the row cannot be built. Then the call returns \<^verbatim>\<open>False\<close>,
  the key of \<open>r\<close> is in \<^verbatim>\<open>processed_companies\<close>, and \<open>r\<close> is the last element of
  \<^verbatim>\<open>companies_data\<close>, with the index \<open>N + 1\<close>. When the next record \<open>r2\<close> is
  accepted with success, it receives the index \<open>N + 2\<close> and the document file it
  rewrites contains \<open>r\<close>.
\<close>

theorem persistence_failure_not_rolled_back:
  assumes "\<not> is_duplicate_company self r"
    and "io \<noteq> NoFault \<or> isl (csv_row (with_index self r))"
  shows "fst (save_company_immediately io r self) = False
     \<and> generate_company_key r \<in> processed_companies (snd (save_company_immediately io r self))
     \<and> companies_data (snd (save_company_immediately io r self))
         = companies_data self @ [with_index self r]
     \<and> dict_get (with_index self r) ''company_index''
         = PInt (int (length (companies_data self)) + 1)
     \<and> (\<not> is_duplicate_company (snd (save_company_immediately io r self)) r2
          \<and> fst (save_company_immediately NoFault r2 (snd (save_company_immediately io r self)))
        \<longrightarrow> json_file (snd (save_company_immediately NoFault r2
                               (snd (save_company_immediately io r self))))
              = JDoc (map items (companies_data self)
                      @ [items (with_index self r),
                         items (dict_set r2 ''company_index''
                                  (PInt (int (length (companies_data self)) + 2)))]))"
proof -
  let ?s = "snd (save_company_immediately io r self)"
  have f: "fst (save_company_immediately io r self) = False"
    using assms by (simp add: save_new_flag)
  have m: "companies_data ?s = companies_data self @ [with_index self r]"
    by (rule save_new_memory(1)[OF assms(1)])
  have k: "generate_company_key r \<in> processed_companies ?s"
    by (simp add: save_new_memory(2)[OF assms(1)])
  have i: "dict_get (with_index self r) ''company_index''
         = PInt (int (length (companies_data self)) + 1)"
    by (simp add: with_index_def dict_get_dict_set)
  have n: "json_file (snd (save_company_immediately NoFault r2 ?s))
              = JDoc (map items (companies_data self)
                      @ [items (with_index self r),
                         items (dict_set r2 ''company_index''
                                  (PInt (int (length (companies_data self)) + 2)))])"
    if "\<not> is_duplicate_company ?s r2"
    using save_new_json[OF that, of NoFault] by (simp add: m with_index_def add.commute)
  from f m k i n show ?thesis by blast
qed

text \<open>
  The claim at a failed document write followed by a successful accept.
\<close>

theorem persistence_failure_not_rolled_back_witness:
  "\<not> is_duplicate_company empty_store acme
   \<and> fst (save_company_immediately JsonWriteFails acme empty_store) = False
   \<and> generate_company_key acme
        \<in> processed_companies (snd (save_company_immediately JsonWriteFails acme empty_store))
   \<and> companies_data (snd (save_company_immediately JsonWriteFails acme empty_store))
       = [dict_set acme ''company_index'' (PInt 1)]
   \<and> \<not> is_duplicate_company (snd (save_company_immediately JsonWriteFails acme empty_store)) bolt
   \<and> fst (save_company_immediately NoFault bolt
             (snd (save_company_immediately JsonWriteFails acme empty_store)))
   \<and> json_file (snd (save_company_immediately NoFault bolt
                        (snd (save_company_immediately JsonWriteFails acme empty_store))))
       = JDoc [items (dict_set acme ''company_index'' (PInt 1)),
               items (dict_set bolt ''company_index'' (PInt 2))]"
proof -
  let ?s = "snd (save_company_immediately JsonWriteFails acme empty_store)"
  have m: "companies_data ?s = [dict_set acme ''company_index'' (PInt 1)]"
    by (simp add: save_new_memory(1)[OF empty_store_no_duplicate] with_index_def empty_store_fields)
  have nd: "\<not> is_duplicate_company ?s bolt" by (simp add: duplicate_after_acme key_acme key_bolt)
  have ok: "fst (save_company_immediately NoFault bolt ?s)"
    by (simp add: save_new_flag[OF nd] with_index_def m csv_row_bolt)
  show ?thesis
    using persistence_failure_not_rolled_back[OF empty_store_no_duplicate[of acme], of JsonWriteFails bolt] nd ok empty_store_no_duplicate[of acme]
    by (simp add: with_index_def empty_store_fields)
qed

end
